theory Spec2Isabelle
  imports Main "HOL-Library.AList"
begin

section \<open>Python values, strings and errors\<close>

text \<open>
  The evidence layer of Bayou (\<^verbatim>\<open>src/ml/bayou/core/evidence.py\<close>) is embedded
  function by function. A Python \<^verbatim>\<open>str\<close> is a sequence of Unicode code points, so it is
  modelled as a list of natural numbers; \<open>py\<close> turns a literal of the source into that
  form. A character is ASCII exactly when its code point is below 128.
\<close>

type_synonym pystr = "nat list"

definition py :: "string \<Rightarrow> pystr" where
  "py s = map of_char s"

text \<open>The topic model that \<^verbatim>\<open>LDA(from_file=...)\<close> unpickles; only its topic count is visible here.\<close>

datatype lda = LDA (n_topics: nat)

text \<open>Values that a configuration record or an evidence attribute can hold.\<close>

datatype "value" =
    VNone
  | VBool bool
  | VInt int
  | VStr pystr
  | VList "value list"
  | VDict "(value \<times> value) list"
  | VLda lda

text \<open>
  Every exception the source can raise is a value. \<open>TypeError\<close> carries the offending
  value (the invalid evidence name that the message is formatted from), \<open>KeyError\<close> and
  \<open>AttributeError\<close> the missing name, \<open>IndexError\<close> the interpreter's message.
\<close>

datatype error =
    KeyError pystr
  | AttributeError pystr
  | TypeError "value"
  | ValueError
  | IndexError string
  | NotImplementedError string
  | OSError

section \<open>String primitives of the interpreter\<close>

text \<open>\<^verbatim>\<open>s.split(sep)\<close> for a one-character separator: every occurrence splits, empty pieces are kept.\<close>

fun split_on :: "'a \<Rightarrow> 'a list \<Rightarrow> 'a list list" where
  "split_on sep [] = [[]]"
| "split_on sep (c # cs) =
     (if c = sep then [] # split_on sep cs
      else (case split_on sep cs of [] \<Rightarrow> [[c]] | w # ws \<Rightarrow> (c # w) # ws))"

text \<open>\<^verbatim>\<open>xs[i]\<close> for a non-negative literal index.\<close>

definition item :: "'a list \<Rightarrow> nat \<Rightarrow> error + 'a" where
  "item xs i = (if i < length xs then Inr (xs ! i) else Inl (IndexError ''list index out of range''))"

text \<open>\<^verbatim>\<open>xs[-2:]\<close>: the last two elements, or all of them when there are fewer.\<close>

definition last_two :: "'a list \<Rightarrow> 'a list" where
  "last_two xs = drop (length xs - 2) xs"

text \<open>
  \<^verbatim>\<open>c.isupper()\<close> for one character. For ASCII it is the range A to Z; for the other code
  points it is a property of the Unicode database, taken as the parameter \<open>uc\<close>.
\<close>

definition isupper :: "(nat \<Rightarrow> bool) \<Rightarrow> nat \<Rightarrow> bool" where
  "isupper uc c = (if c < 128 then 65 \<le> c \<and> c \<le> 90 else uc c)"

section \<open>Keywords.from_call\<close>

text \<open>
  \<^verbatim>\<open>split_camel\<close> is imported from \<^verbatim>\<open>bayou.core.utils\<close>; the extraction functions take it as
  the parameter \<open>sc\<close>. Unpacking \<^verbatim>\<open>cls, name = split[-2:]\<close> needs exactly two values and
  raises \<^verbatim>\<open>ValueError\<close> otherwise.
\<close>

definition Keywords_from_call :: "(pystr \<Rightarrow> pystr list) \<Rightarrow> pystr \<Rightarrow> error + pystr list" where
  "Keywords_from_call sc call =
     (case item (split_on (of_char CHR ''('') call) 0 of
        Inl e \<Rightarrow> Inl e
      | Inr head \<Rightarrow>
          (let split = split_on (of_char CHR ''.'') head in
           case last_two split of
             [cls, name] \<Rightarrow> if \<not> cls = name then Inr (sc name) else Inr []
           | _ \<Rightarrow> Inl ValueError))"

section \<open>Types.from_call\<close>

text \<open>
  The comprehension \<^verbatim>\<open>[q for q in ... if q[0].isupper()]\<close> reads the first character of
  every segment, from left to right; an empty segment makes \<^verbatim>\<open>q[0]\<close> raise.
\<close>

fun keep_upper :: "(nat \<Rightarrow> bool) \<Rightarrow> pystr list \<Rightarrow> error + pystr list" where
  "keep_upper uc [] = Inr []"
| "keep_upper uc (q # qs) =
     (case q of
        [] \<Rightarrow> Inl (IndexError ''string index out of range'')
      | c # _ \<Rightarrow>
          (case keep_upper uc qs of
             Inl e \<Rightarrow> Inl e
           | Inr r \<Rightarrow> Inr (if isupper uc c then q # r else r)))"

definition Types_from_call ::
  "(nat \<Rightarrow> bool) \<Rightarrow> (pystr \<Rightarrow> pystr list) \<Rightarrow> pystr \<Rightarrow> error + pystr list" where
  "Types_from_call uc sc call =
     (case item (split_on (of_char CHR ''('') call) 0 of
        Inl e \<Rightarrow> Inl e
      | Inr head \<Rightarrow>
          (case keep_upper uc (butlast (split_on (of_char CHR ''.'') head)) of
             Inl e \<Rightarrow> Inl e
           | Inr kept \<Rightarrow>
               (let split = rev kept in
                case item split 0 of
                  Inl e \<Rightarrow> Inl e
                | Inr s0 \<Rightarrow>
                    (let inner = sc s0 in
                     case (if length split > 1
                           then (case item split 1 of Inl e \<Rightarrow> Inl e | Inr s1 \<Rightarrow> Inr (sc s1))
                           else Inr [])
                     of Inl e \<Rightarrow> Inl e
                      | Inr outer \<Rightarrow> Inr (inner @ outer)))))"

section \<open>Context.from_call\<close>

text \<open>
  \<^verbatim>\<open>re.sub('<.*', '', arg)\<close>: from every \<^verbatim>\<open><\<close> the match runs to the end of the line (the
  dot matches everything but a newline, code point 10) and is deleted; the scan goes on
  after the match.
\<close>

function sub_generics :: "pystr \<Rightarrow> pystr" where
  "sub_generics [] = []"
| "sub_generics (c # cs) =
     (if c = of_char CHR ''<'' then sub_generics (dropWhile (\<lambda>d. d \<noteq> 10) cs)
      else c # sub_generics cs)"
  by pat_completeness auto
termination
  by (relation "measure length") (auto simp: length_dropWhile_le less_Suc_eq_le)

text \<open>\<^verbatim>\<open>re.sub('\[\]', '', arg)\<close>: every non-overlapping \<^verbatim>\<open>[]\<close>, found from the left, is deleted.\<close>

fun sub_array :: "pystr \<Rightarrow> pystr" where
  "sub_array (a # b # cs) =
     (if a = of_char CHR ''['' \<and> b = of_char CHR '']'' then sub_array cs
      else a # sub_array (b # cs))"
| "sub_array cs = cs"

text \<open>
  \<^verbatim>\<open>arg.split('.')[-1]\<close> is the last piece; a split is never empty (lemma
  \<open>split_on_nonempty\<close>), so the index is always in range.
\<close>

definition Context_from_call :: "(pystr \<Rightarrow> pystr list) \<Rightarrow> pystr \<Rightarrow> error + pystr list" where
  "Context_from_call sc call =
     (case item (split_on (of_char CHR ''('') call) 1 of
        Inl e \<Rightarrow> Inl e
      | Inr tail \<Rightarrow>
          (case item (split_on (of_char CHR '')'') tail) 0 of
             Inl e \<Rightarrow> Inl e
           | Inr inside \<Rightarrow>
               (let args = split_on (of_char CHR '','') inside;
                    args = map (\<lambda>arg. last (split_on (of_char CHR ''.'') arg)) args;
                    args = map sub_generics args;
                    args = map sub_array args;
                    contexts = concat (map sc args)
                in Inr (filter (\<lambda>c. \<not> c = []) contexts))))"

section \<open>The camel-case tokenizer\<close>

text \<open>
  Modelled from the spec: \<^verbatim>\<open>split_camel\<close> of \<^verbatim>\<open>bayou.core.utils\<close>, which the evidence module
  imports and whose source is not part of the module. The spec describes it as
  tokenizing an identifier at internal case-transition boundaries into lowercase
  sub-words: a boundary lies between a lowercase letter and a following uppercase
  letter, and every piece is lowercased. Letters are the ASCII letters.
\<close>

definition ascii_lower :: "nat \<Rightarrow> bool" where
  "ascii_lower c = (97 \<le> c \<and> c \<le> 122)"

definition ascii_upper :: "nat \<Rightarrow> bool" where
  "ascii_upper c = (65 \<le> c \<and> c \<le> 90)"

definition to_lower :: "nat \<Rightarrow> nat" where
  "to_lower c = (if ascii_upper c then c + 32 else c)"

fun camel_pieces :: "pystr \<Rightarrow> pystr list" where
  "camel_pieces [] = [[]]"
| "camel_pieces [c] = [[c]]"
| "camel_pieces (c # d # cs) =
     (if ascii_lower c \<and> ascii_upper d then [c] # camel_pieces (d # cs)
      else (case camel_pieces (d # cs) of [] \<Rightarrow> [[c]] | w # ws \<Rightarrow> (c # w) # ws))"

definition split_camel :: "pystr \<Rightarrow> pystr list" where
  "split_camel s = map (map to_lower) (camel_pieces s)"

section \<open>Sets and their iteration order\<close>

text \<open>
  \<^verbatim>\<open>set(xs)\<close> adds the elements one at a time and skips an element that is already
  present; \<^verbatim>\<open>list(s)\<close> enumerates the hash table, in an order that the language does not
  fix. The model keeps a set as the list of its elements in iteration order. Where a
  new element enters that order depends on its hash: the parameter \<open>h\<close> gives the
  position (cut off at the current size). Lemma \<open>list_set_any_order\<close> shows that every
  enumeration of the elements arises for some \<open>h\<close>.
\<close>

definition set_add :: "('a \<Rightarrow> nat) \<Rightarrow> 'a list \<Rightarrow> 'a \<Rightarrow> 'a list" where
  "set_add h s x =
     (if x \<in> set s then s
      else (let i = min (h x) (length s) in take i s @ x # drop i s))"

definition list_set :: "('a \<Rightarrow> nat) \<Rightarrow> 'a list \<Rightarrow> 'a list" where
  "list_set h xs = foldl (set_add h) [] xs"

text \<open>
  The hash under which \<open>list_set\<close> enumerates the elements of \<open>xs\<close> in the order of \<open>zs\<close>:
  an element goes behind the elements already present that \<open>zs\<close> lists before it.
\<close>

definition order_hash :: "'a list \<Rightarrow> 'a list \<Rightarrow> 'a \<Rightarrow> nat" where
  "order_hash xs zs x =
     length (filter (\<lambda>y. y \<in> set (takeWhile (\<lambda>y. y \<noteq> x) xs)) (takeWhile (\<lambda>y. y \<noteq> x) zs))"

section \<open>Program records and read_data_point\<close>

text \<open>
  A program record is a mapping with the optional fields \<^verbatim>\<open>keywords\<close>, \<^verbatim>\<open>types\<close>,
  \<^verbatim>\<open>context\<close> (lists of strings) and \<^verbatim>\<open>javadoc\<close> (a string); \<open>None\<close> is an absent key.
\<close>

record program =
  p_keywords :: "pystr list option"
  p_types :: "pystr list option"
  p_context :: "pystr list option"
  p_javadoc :: "pystr option"

definition Keywords_read_data_point :: "(pystr \<Rightarrow> nat) \<Rightarrow> program \<Rightarrow> pystr list" where
  "Keywords_read_data_point h program =
     (let keywords = (case p_keywords program of Some v \<Rightarrow> v | None \<Rightarrow> []);
          keywords = list_set h keywords
      in keywords)"

definition Types_read_data_point :: "(pystr \<Rightarrow> nat) \<Rightarrow> program \<Rightarrow> pystr list" where
  "Types_read_data_point h program =
     (let types = (case p_types program of Some v \<Rightarrow> v | None \<Rightarrow> []);
          types = list_set h types
      in types)"

definition Context_read_data_point :: "(pystr \<Rightarrow> nat) \<Rightarrow> program \<Rightarrow> pystr list" where
  "Context_read_data_point h program =
     (let context = (case p_context program of Some v \<Rightarrow> v | None \<Rightarrow> []);
          context = list_set h context
      in context)"

text \<open>
  \<^verbatim>\<open>javadoc.encode('ascii')\<close> raises \<^verbatim>\<open>UnicodeEncodeError\<close> exactly when some code point is
  128 or more; the source catches it.
\<close>

datatype codec_error = UnicodeEncodeError

definition encode_ascii :: "pystr \<Rightarrow> codec_error + pystr" where
  "encode_ascii s = (if list_all (\<lambda>c. c < 128) s then Inr s else Inl UnicodeEncodeError)"

text \<open>
  \<^verbatim>\<open>s.split()\<close> without a separator: the pieces between runs of whitespace, none of them
  empty. The whitespace characters are those of the interpreter's Unicode table.
\<close>

definition is_space :: "nat \<Rightarrow> bool" where
  "is_space c =
     ((9 \<le> c \<and> c \<le> 13) \<or> (28 \<le> c \<and> c \<le> 32) \<or> c = 133 \<or> c = 160 \<or> c = 5760
      \<or> (8192 \<le> c \<and> c \<le> 8202) \<or> c = 8232 \<or> c = 8233 \<or> c = 8239 \<or> c = 8287
      \<or> c = 12288)"

fun split_ws_from :: "pystr \<Rightarrow> pystr \<Rightarrow> pystr list" where
  "split_ws_from w [] = (if w = [] then [] else [w])"
| "split_ws_from w (c # cs) =
     (if is_space c then (if w = [] then split_ws_from [] cs else w # split_ws_from [] cs)
      else split_ws_from (w @ [c]) cs)"

definition split_ws :: "pystr \<Rightarrow> pystr list" where
  "split_ws s = split_ws_from [] s"

text \<open>
  \<^verbatim>\<open>UNK\<close> is imported from \<^verbatim>\<open>bayou.core.utils\<close> and is a parameter here. The parameter
  \<^verbatim>\<open>infer\<close> of the source is not used by it.
\<close>

definition Javadoc_read_data_point :: "pystr \<Rightarrow> program \<Rightarrow> pystr list" where
  "Javadoc_read_data_point UNK program =
     (let javadoc = (case p_javadoc program of Some v \<Rightarrow> Some v | None \<Rightarrow> None);
          javadoc = (case javadoc of None \<Rightarrow> UNK | Some v \<Rightarrow> if v = [] then UNK else v);
          javadoc = (case encode_ascii javadoc of Inr _ \<Rightarrow> javadoc | Inl UnicodeEncodeError \<Rightarrow> UNK)
      in split_ws javadoc)"

section \<open>Evidence instances\<close>

text \<open>
  The four concrete classes. An instance is its class together with its attribute
  dictionary; \<^verbatim>\<open>__setattr__\<close> stores into it and \<^verbatim>\<open>__getattribute__\<close> reads from it,
  raising \<^verbatim>\<open>AttributeError\<close> for a name that was never set. A configuration record is a
  dictionary from names to values.
\<close>

datatype kind = Keywords | Types | Context | Javadoc

record evidence =
  kind :: kind
  attrs :: "pystr \<rightharpoonup> value"

type_synonym config_record = "pystr \<rightharpoonup> value"

definition new :: "kind \<Rightarrow> evidence" where
  "new k = \<lparr>kind = k, attrs = Map.empty\<rparr>"

definition setattr :: "evidence \<Rightarrow> pystr \<Rightarrow> value \<Rightarrow> evidence" where
  "setattr self a v = self\<lparr>attrs := (attrs self)(a \<mapsto> v)\<rparr>"

definition getattr :: "evidence \<Rightarrow> pystr \<Rightarrow> error + value" where
  "getattr self a = (case attrs self a of None \<Rightarrow> Inl (AttributeError a) | Some v \<Rightarrow> Inr v)"

text \<open>\<^verbatim>\<open>os.path.join(a, b)\<close> on a POSIX system.\<close>

definition path_join :: "pystr \<Rightarrow> pystr \<Rightarrow> pystr" where
  "path_join a b =
     (if b \<noteq> [] \<and> hd b = of_char CHR ''/'' then b
      else if a = [] \<or> last a = of_char CHR ''/'' then a @ b
      else a @ of_char CHR ''/'' # b)"

section \<open>Javadoc.set_dicts\<close>

text \<open>The truth value of a Python object, as \<^verbatim>\<open>if self.pretrained_embed:\<close> tests it.\<close>

fun truthy :: "value \<Rightarrow> bool" where
  "truthy VNone = False"
| "truthy (VBool b) = b"
| "truthy (VInt n) = (n \<noteq> 0)"
| "truthy (VStr s) = (s \<noteq> [])"
| "truthy (VList l) = (l \<noteq> [])"
| "truthy (VDict d) = (d \<noteq> [])"
| "truthy (VLda m) = True"

text \<open>
  \<^verbatim>\<open>dict(zip(keys, range(len(keys))))\<close>: the pairs are stored from left to right, and a
  key that comes again overwrites the value stored before.
\<close>

definition dict_zip_range :: "'k list \<Rightarrow> ('k \<times> nat) list" where
  "dict_zip_range ks = fold (\<lambda>(k, v) d. AList.update k v d) (zip ks [0..<length ks]) []"

text \<open>
  \<^verbatim>\<open>C0\<close> is imported from \<^verbatim>\<open>bayou.core.utils\<close> and is a parameter. Reading the persisted
  vocabulary (opening \<^verbatim>\<open>config.json\<close> under the save directory, parsing it and taking its
  \<^verbatim>\<open>chars\<close> entry) is the parameter \<open>load_chars\<close>, from the path to the list or to the
  error raised on the way.
\<close>

definition Javadoc_set_dicts ::
  "(pystr \<Rightarrow> nat) \<Rightarrow> pystr \<Rightarrow> (pystr \<Rightarrow> error + pystr list) \<Rightarrow> evidence \<Rightarrow> pystr list list
     \<Rightarrow> error + evidence" where
  "Javadoc_set_dicts h C0 load_chars self data =
     (case getattr self (py ''pretrained_embed'') of
        Inl e \<Rightarrow> Inl e
      | Inr pretrained_embed \<Rightarrow>
          (case (if truthy pretrained_embed
                 then (case getattr self (py ''save_dir'') of
                         Inl e \<Rightarrow> Inl e
                       | Inr d \<Rightarrow>
                           (case getattr self (py ''name'') of
                              Inl e \<Rightarrow> Inl e
                            | Inr n \<Rightarrow>
                                (case n of
                                   VStr name \<Rightarrow>
                                     (case d of
                                        VStr dir \<Rightarrow>
                                          (let save_dir = path_join dir (py ''embed_'' @ name)
                                           in load_chars (path_join save_dir (py ''config.json'')))
                                      | _ \<Rightarrow> Inl (TypeError d))
                                 | _ \<Rightarrow> Inl (TypeError n))))
                 else Inr (C0 # list_set h (concat data)))
           of Inl e \<Rightarrow> Inl e
            | Inr chars \<Rightarrow>
                (let self = setattr self (py ''chars'') (VList (map VStr chars));
                     vocab = dict_zip_range chars;
                     self = setattr self (py ''vocab'')
                              (VDict (map (\<lambda>(k, v). (VStr k, VInt (int v))) vocab));
                     self = setattr self (py ''vocab_size'') (VInt (int (length vocab)))
                 in Inr self)))"

section \<open>Configuration: init_config, dump_config, read_config\<close>

text \<open>
  \<^verbatim>\<open>CONFIG_ENCODER\<close>, the list of recognized attribute names, is imported from
  \<^verbatim>\<open>bayou.core.utils\<close> and is a parameter. Unpickling the topic model,
  \<^verbatim>\<open>LDA(from_file=path)\<close>, is the parameter \<open>LDA_from_file\<close>: it gives the model or the
  error raised while reading the file.
\<close>

definition Evidence_load_embedding :: "evidence \<Rightarrow> pystr \<Rightarrow> error + evidence" where
  "Evidence_load_embedding self save_dir =
     Inl (NotImplementedError ''load_embedding() has not been implemented'')"

definition Keywords_load_embedding ::
  "(pystr \<Rightarrow> error + lda) \<Rightarrow> evidence \<Rightarrow> pystr \<Rightarrow> error + evidence" where
  "Keywords_load_embedding LDA_from_file self save_dir =
     (let embed_save_dir = path_join save_dir (py ''embed_keywords'')
      in case LDA_from_file (path_join embed_save_dir (py ''model.pkl'')) of
           Inl e \<Rightarrow> Inl e
         | Inr m \<Rightarrow> Inr (setattr self (py ''lda'') (VLda m)))"

definition Types_load_embedding ::
  "(pystr \<Rightarrow> error + lda) \<Rightarrow> evidence \<Rightarrow> pystr \<Rightarrow> error + evidence" where
  "Types_load_embedding LDA_from_file self save_dir =
     (let embed_save_dir = path_join save_dir (py ''embed_types'')
      in case LDA_from_file (path_join embed_save_dir (py ''model.pkl'')) of
           Inl e \<Rightarrow> Inl e
         | Inr m \<Rightarrow> Inr (setattr self (py ''lda'') (VLda m)))"

definition Context_load_embedding ::
  "(pystr \<Rightarrow> error + lda) \<Rightarrow> evidence \<Rightarrow> pystr \<Rightarrow> error + evidence" where
  "Context_load_embedding LDA_from_file self save_dir =
     (let embed_save_dir = path_join save_dir (py ''embed_context'')
      in case LDA_from_file (path_join embed_save_dir (py ''model.pkl'')) of
           Inl e \<Rightarrow> Inl e
         | Inr m \<Rightarrow> Inr (setattr self (py ''lda'') (VLda m)))"

text \<open>
  \<^verbatim>\<open>self.load_embedding(save_dir)\<close> runs the method of the instance's class. The class
  \<^verbatim>\<open>Javadoc\<close> does not override it and inherits the one of \<^verbatim>\<open>Evidence\<close>.
\<close>

definition load_embedding ::
  "(pystr \<Rightarrow> error + lda) \<Rightarrow> evidence \<Rightarrow> pystr \<Rightarrow> error + evidence" where
  "load_embedding LDA_from_file self save_dir =
     (case kind self of
        Keywords \<Rightarrow> Keywords_load_embedding LDA_from_file self save_dir
      | Types \<Rightarrow> Types_load_embedding LDA_from_file self save_dir
      | Context \<Rightarrow> Context_load_embedding LDA_from_file self save_dir
      | Javadoc \<Rightarrow> Evidence_load_embedding self save_dir)"

text \<open>The loop of \<^verbatim>\<open>init_config\<close>; \<^verbatim>\<open>evidence[attr]\<close> raises \<^verbatim>\<open>KeyError\<close> for an absent key.\<close>

fun init_attrs :: "pystr list \<Rightarrow> evidence \<Rightarrow> config_record \<Rightarrow> error + evidence" where
  "init_attrs [] self evidence = Inr self"
| "init_attrs (attr # rest) self evidence =
     (case evidence attr of
        None \<Rightarrow> Inl (KeyError attr)
      | Some v \<Rightarrow> init_attrs rest (setattr self attr v) evidence)"

definition init_config ::
  "pystr list \<Rightarrow> (pystr \<Rightarrow> error + lda) \<Rightarrow> evidence \<Rightarrow> config_record \<Rightarrow> pystr
     \<Rightarrow> error + evidence" where
  "init_config CONFIG_ENCODER LDA_from_file self evidence save_dir =
     (case init_attrs CONFIG_ENCODER self evidence of
        Inl e \<Rightarrow> Inl e
      | Inr self \<Rightarrow> load_embedding LDA_from_file self save_dir)"

text \<open>The dictionary comprehension of \<^verbatim>\<open>dump_config\<close>, filled from left to right.\<close>

fun dump_attrs :: "pystr list \<Rightarrow> evidence \<Rightarrow> config_record \<Rightarrow> error + config_record" where
  "dump_attrs [] self js = Inr js"
| "dump_attrs (attr # rest) self js =
     (case getattr self attr of
        Inl e \<Rightarrow> Inl e
      | Inr v \<Rightarrow> dump_attrs rest self (js(attr \<mapsto> v)))"

definition dump_config :: "pystr list \<Rightarrow> evidence \<Rightarrow> error + config_record" where
  "dump_config CONFIG_ENCODER self = dump_attrs CONFIG_ENCODER self Map.empty"

text \<open>
  The loop of \<^verbatim>\<open>read_config\<close>, with the list \<^verbatim>\<open>evidences\<close> built so far. The name is
  compared with the three string literals; any other value reaches the \<^verbatim>\<open>else\<close> branch.
\<close>

fun read_config_loop ::
  "pystr list \<Rightarrow> (pystr \<Rightarrow> error + lda) \<Rightarrow> pystr \<Rightarrow> evidence list \<Rightarrow> config_record list
     \<Rightarrow> error + evidence list" where
  "read_config_loop CONFIG_ENCODER LDA_from_file save_dir evidences [] = Inr evidences"
| "read_config_loop CONFIG_ENCODER LDA_from_file save_dir evidences (evidence # js) =
     (case evidence (py ''name'') of
        None \<Rightarrow> Inl (KeyError (py ''name''))
      | Some name \<Rightarrow>
          (case (if name = VStr (py ''keywords'') then Inr (new Keywords)
                 else if name = VStr (py ''types'') then Inr (new Types)
                 else if name = VStr (py ''context'') then Inr (new Context)
                 else Inl (TypeError name))
           of Inl err \<Rightarrow> Inl err
            | Inr e \<Rightarrow>
                (case init_config CONFIG_ENCODER LDA_from_file e evidence save_dir of
                   Inl err \<Rightarrow> Inl err
                 | Inr e \<Rightarrow>
                     read_config_loop CONFIG_ENCODER LDA_from_file save_dir (evidences @ [e]) js)))"

definition read_config ::
  "pystr list \<Rightarrow> (pystr \<Rightarrow> error + lda) \<Rightarrow> config_record list \<Rightarrow> pystr
     \<Rightarrow> error + evidence list" where
  "read_config CONFIG_ENCODER LDA_from_file js save_dir =
     read_config_loop CONFIG_ENCODER LDA_from_file save_dir [] js"

section \<open>Encoding into the latent space\<close>

text \<open>
  \<^verbatim>\<open>encode\<close> builds nodes of a computation graph; what it returns are symbolic tensors
  with static shapes, not numbers. A tensor is modelled as the expression that built
  it together with its shape, a graph as the names of the variables created so far.
  The library calls check shapes when the node is built and raise \<^verbatim>\<open>ValueError\<close> on a
  mismatch, on a negative size, and when a variable is created under a name that
  exists already.
\<close>

datatype tensor =
    Placeholder (shape: "int list")
  | Variable pystr (shape: "int list")
  | Dense tensor tensor tensor (shape: "int list")
  | XwPlusB tensor tensor tensor (shape: "int list")

type_synonym graph = "pystr list"

record model_config =
  latent_size :: int
  batch_size :: int

definition tf_get_variable :: "graph \<Rightarrow> pystr \<Rightarrow> pystr \<Rightarrow> int list \<Rightarrow> error + tensor \<times> graph" where
  "tf_get_variable g scope name shp =
     (let full = scope @ py ''/'' @ name
      in if full \<in> set g \<or> \<not> list_all (\<lambda>d. 0 \<le> d) shp then Inl ValueError
         else Inr (Variable full shp, full # g))"

text \<open>
  \<^verbatim>\<open>tf.layers.dense(inputs, units)\<close> inside a variable scope: the layer takes the default
  name \<^verbatim>\<open>dense\<close> and creates its variables \<^verbatim>\<open>kernel\<close>, of shape \<open>[last size of the input, units]\<close>,
  and \<^verbatim>\<open>bias\<close>, of shape \<open>[units]\<close>, under the scope; the input needs two dimensions at
  least. \<open>Dense inputs kernel bias\<close> is the node it returns.
\<close>

definition tf_layers_dense :: "graph \<Rightarrow> pystr \<Rightarrow> tensor \<Rightarrow> int \<Rightarrow> error + tensor \<times> graph" where
  "tf_layers_dense g scope inputs units =
     (if length (shape inputs) < 2 then Inl ValueError
      else
        (case tf_get_variable g (scope @ py ''/dense'') (py ''kernel'')
                [last (shape inputs), units] of
           Inl e \<Rightarrow> Inl e
         | Inr (kernel_var, g) \<Rightarrow>
             (case tf_get_variable g (scope @ py ''/dense'') (py ''bias'') [units] of
                Inl e \<Rightarrow> Inl e
              | Inr (bias_var, g) \<Rightarrow>
                  Inr (Dense inputs kernel_var bias_var (butlast (shape inputs) @ [units]), g))))"

definition tf_nn_xw_plus_b :: "tensor \<Rightarrow> tensor \<Rightarrow> tensor \<Rightarrow> error + tensor" where
  "tf_nn_xw_plus_b x w b =
     (case (shape x, shape w, shape b) of
        ([n, k], [k', m], [m']) \<Rightarrow>
          if k = k' \<and> m = m' then Inr (XwPlusB x w b [n, m]) else Inl ValueError
      | _ \<Rightarrow> Inl ValueError)"

text \<open>
  An attribute used as a size or as a repetition count has to be an integer (a
  \<^verbatim>\<open>bool\<close> is one); for any other value the library or the list product raises.
\<close>

definition int_attr :: "evidence \<Rightarrow> pystr \<Rightarrow> error + int" where
  "int_attr self a =
     (case getattr self a of
        Inl e \<Rightarrow> Inl e
      | Inr v \<Rightarrow>
          (case v of
             VInt n \<Rightarrow> Inr n
           | VBool b \<Rightarrow> Inr (if b then 1 else 0)
           | _ \<Rightarrow> Inl (TypeError v)))"

text \<open>
  The body that \<^verbatim>\<open>Keywords.encode\<close>, \<^verbatim>\<open>Types.encode\<close> and \<^verbatim>\<open>Context.encode\<close> share; they
  differ in the name of the variable scope only. \<^verbatim>\<open>[x] * n\<close> is \<open>n\<close> copies of \<open>x\<close>, and
  no copy for a negative \<open>n\<close>.
\<close>

definition encode_in_scope ::
  "pystr \<Rightarrow> evidence \<Rightarrow> tensor \<Rightarrow> model_config \<Rightarrow> graph \<Rightarrow> error + tensor list \<times> graph" where
  "encode_in_scope scope self inputs config g =
     (case int_attr self (py ''units'') of
        Inl e \<Rightarrow> Inl e
      | Inr units \<Rightarrow>
          (case tf_layers_dense g scope inputs units of
             Inl e \<Rightarrow> Inl e
           | Inr (encoding, g) \<Rightarrow>
               (case tf_get_variable g scope (py ''w'') [units, latent_size config] of
                  Inl e \<Rightarrow> Inl e
                | Inr (w, g) \<Rightarrow>
                    (case tf_get_variable g scope (py ''b'') [latent_size config] of
                       Inl e \<Rightarrow> Inl e
                     | Inr (b, g) \<Rightarrow>
                         (case tf_nn_xw_plus_b encoding w b of
                            Inl e \<Rightarrow> Inl e
                          | Inr latent_encoding \<Rightarrow>
                              (case int_attr self (py ''tile'') of
                                 Inl e \<Rightarrow> Inl e
                               | Inr tile \<Rightarrow>
                                   Inr (replicate (nat tile) latent_encoding, g)))))))"

definition Keywords_encode ::
  "evidence \<Rightarrow> tensor \<Rightarrow> model_config \<Rightarrow> graph \<Rightarrow> error + tensor list \<times> graph" where
  "Keywords_encode self inputs config g = encode_in_scope (py ''keywords'') self inputs config g"

definition Types_encode ::
  "evidence \<Rightarrow> tensor \<Rightarrow> model_config \<Rightarrow> graph \<Rightarrow> error + tensor list \<times> graph" where
  "Types_encode self inputs config g = encode_in_scope (py ''types'') self inputs config g"

definition Context_encode ::
  "evidence \<Rightarrow> tensor \<Rightarrow> model_config \<Rightarrow> graph \<Rightarrow> error + tensor list \<times> graph" where
  "Context_encode self inputs config g = encode_in_scope (py ''context'') self inputs config g"

section \<open>Observations and concrete environments\<close>

text \<open>\<^verbatim>\<open>self.vocab.get(w)\<close>: the id that the vocabulary stored by \<^verbatim>\<open>set_dicts\<close> gives a token.\<close>

definition vocab_id :: "evidence \<Rightarrow> pystr \<Rightarrow> value option" where
  "vocab_id self w =
     (case attrs self (py ''vocab'') of
        Some (VDict d) \<Rightarrow> map_of d (VStr w)
      | _ \<Rightarrow> None)"

text \<open>
  Environments for the concrete runs below: a tokenizer that returns its argument as
  the only token, a hash under which every new element enters the iteration order at
  the front, a save directory in which every model file unpickles to the same topic
  model, and one in which the persisted vocabulary is a given list.
\<close>

definition one_token :: "pystr \<Rightarrow> pystr list" where
  "one_token s = [s]"

definition front_hash :: "pystr \<Rightarrow> nat" where
  "front_hash w = 0"

definition model_everywhere :: "lda \<Rightarrow> pystr \<Rightarrow> error + lda" where
  "model_everywhere m path = Inr m"

definition persisted_chars :: "pystr list \<Rightarrow> pystr \<Rightarrow> error + pystr list" where
  "persisted_chars chars path = Inr chars"

section \<open>Facts about splitting\<close>

lemma split_on_nonempty: "split_on sep s \<noteq> []"
  by (induction s) (auto split: list.splits)

lemma split_on_absent: "sep \<notin> set s \<Longrightarrow> split_on sep s = [s]"
  by (induction s) auto

lemma split_on_append: "split_on sep (a @ sep # b) = split_on sep a @ split_on sep b"
  by (induction a) (auto split: list.splits simp: split_on_nonempty)

lemma hd_split_on: "hd (split_on sep s) = takeWhile (\<lambda>c. c \<noteq> sep) s"
  by (induction s) (auto split: list.splits simp: split_on_nonempty)

lemma item_split_on_0: "item (split_on sep s) 0 = Inr (takeWhile (\<lambda>c. c \<noteq> sep) s)"
  using split_on_nonempty [of sep s] hd_split_on [of sep s]
  by (cases "split_on sep s") (auto simp: item_def)

lemma takeWhile_upto: "sep \<notin> set h \<Longrightarrow> takeWhile (\<lambda>x. x \<noteq> sep) (h @ sep # xs) = h"
  by (induction h) auto

lemma takeWhile_all: "sep \<notin> set h \<Longrightarrow> takeWhile (\<lambda>x. x \<noteq> sep) h = h"
  by (induction h) auto

lemma last_two_snoc2: "last_two (xs @ [a, b]) = [a, b]"
  by (simp add: last_two_def)

lemma last_two_single: "last_two [a] = [a]"
  by (simp add: last_two_def)

section \<open>Keywords.from_call: constructor calls and calls without a dot\<close>

text \<open>
  Claim C7. Take a call string whose part before the first \<^verbatim>\<open>(\<close> ends in two equal
  dot-segments: it reads \<open>q @ c @ ''.'' @ c\<close>, where \<open>c\<close> has no dot, \<open>q\<close> is empty or
  ends with a dot, and what follows is nothing or starts with \<^verbatim>\<open>(\<close>. For every such
  string \<^verbatim>\<open>Keywords.from_call\<close> returns the empty token list, whatever the tokenizer.
\<close>

theorem Keywords_from_call_constructor:
  assumes q: "q = [] \<or> last q = of_char CHR ''.''"
    and c: "of_char CHR ''.'' \<notin> set c" "of_char CHR ''('' \<notin> set c"
    and qp: "of_char CHR ''('' \<notin> set q"
    and r: "rest = [] \<or> hd rest = of_char CHR ''(''"
  shows "Keywords_from_call sc (q @ c @ of_char CHR ''.'' # c @ rest) = Inr []"
proof -
  let ?dot = "of_char CHR ''.'' :: nat" and ?par = "of_char CHR ''('' :: nat"
  let ?head = "q @ c @ ?dot # c"
  have ne: "?dot \<noteq> ?par" by simp
  have nopar: "?par \<notin> set ?head" using c qp ne by auto
  have tw: "takeWhile (\<lambda>x. x \<noteq> ?par) (?head @ rest) = ?head"
  proof (cases rest)
    case Nil
    then show ?thesis using takeWhile_all [OF nopar] by simp
  next
    case (Cons x xs)
    then have "x = ?par" using r by simp
    then show ?thesis using takeWhile_upto [OF nopar, of xs] Cons
      by simp
  qed
  have segs: "\<exists>pre. split_on ?dot ?head = pre @ [c, c]"
  proof (cases "q = []")
    case True
    then show ?thesis
      using split_on_append [of ?dot c c] split_on_absent [OF c(1)] by auto
  next
    case False
    then obtain p where p: "q = p @ [?dot]" using q
      by (metis append_butlast_last_id)
    have "split_on ?dot ?head = split_on ?dot (p @ ?dot # (c @ ?dot # c))" using p by simp
    also have "\<dots> = split_on ?dot p @ split_on ?dot (c @ ?dot # c)"
      by (rule split_on_append)
    also have "\<dots> = split_on ?dot p @ [c, c]"
      using split_on_append [of ?dot c c] split_on_absent [OF c(1)] by simp
    finally show ?thesis by blast
  qed
  then obtain pre where pre: "split_on ?dot ?head = pre @ [c, c]" by blast
  have "Keywords_from_call sc (?head @ rest) = Inr []"
    unfolding Keywords_from_call_def item_split_on_0 tw
    using pre by (simp add: last_two_snoc2 Let_def)
  then show ?thesis by simp
qed

theorem Keywords_from_call_constructor_witness:
  "Keywords_from_call one_token (py ''java.lang.String.String(int)'') = Inr []"
  using Keywords_from_call_constructor
    [of "py ''java.lang.''" "py ''String''" "py ''(int)''" one_token]
  by (simp add: py_def)

text \<open>
  Claim C10. When the part of the call string before the first \<^verbatim>\<open>(\<close> contains no dot,
  as in \<^verbatim>\<open>add(x)\<close>, the split has one element, the unpacking into class and member
  fails, and \<^verbatim>\<open>Keywords.from_call\<close> raises (a \<^verbatim>\<open>ValueError\<close>) instead of returning tokens.
\<close>

theorem Keywords_from_call_no_dot:
  assumes "of_char CHR ''.'' \<notin> set (takeWhile (\<lambda>x. x \<noteq> of_char CHR ''('') call)"
  shows "Keywords_from_call sc call = Inl ValueError"
  unfolding Keywords_from_call_def item_split_on_0
  using split_on_absent [OF assms]
  by (simp add: last_two_single Let_def)

theorem Keywords_from_call_no_dot_witness:
  "Keywords_from_call one_token (py ''add(x)'') = Inl ValueError"
  using Keywords_from_call_no_dot [of "py ''add(x)''" one_token]
  by (simp add: py_def)

section \<open>Types.from_call without an uppercase segment\<close>

lemma keep_upper_error:
  "keep_upper uc qs = Inl e \<Longrightarrow> e = IndexError ''string index out of range''"
  by (induction qs arbitrary: e) (auto split: list.splits sum.splits)

lemma keep_upper_none:
  "\<forall>q\<in>set qs. \<forall>c cs. q = c # cs \<longrightarrow> \<not> isupper uc c \<Longrightarrow> keep_upper uc qs = Inr r \<Longrightarrow> r = []"
  by (induction qs arbitrary: r) (auto split: list.splits sum.splits if_splits)

lemma keep_upper_total: "[] \<notin> set qs \<Longrightarrow> \<exists>r. keep_upper uc qs = Inr r"
  by (induction qs) (auto split: list.splits sum.splits)

text \<open>
  Claim C9. When none of the dot-segments before the first \<^verbatim>\<open>(\<close>, the last one left
  out, starts with an uppercase letter, \<^verbatim>\<open>Types.from_call\<close> raises \<^verbatim>\<open>IndexError\<close> and
  returns no token list. When moreover none of these segments is empty, as in
  \<^verbatim>\<open>foo(x)\<close> and \<^verbatim>\<open>obj.run(x)\<close>, the error is the one of \<^verbatim>\<open>split[0]\<close> on the empty list of
  kept segments.
\<close>

theorem Types_from_call_no_upper:
  assumes "\<forall>q\<in>set (butlast (split_on (of_char CHR ''.'')
                      (takeWhile (\<lambda>x. x \<noteq> of_char CHR ''('') call))).
             \<forall>c cs. q = c # cs \<longrightarrow> \<not> isupper uc c"
  shows "(\<exists>msg. Types_from_call uc sc call = Inl (IndexError msg)) \<and>
         ([] \<notin> set (butlast (split_on (of_char CHR ''.'')
                      (takeWhile (\<lambda>x. x \<noteq> of_char CHR ''('') call)))
            \<longrightarrow> Types_from_call uc sc call = Inl (IndexError ''list index out of range''))"
proof -
  let ?segs = "butlast (split_on (of_char CHR ''.'')
                 (takeWhile (\<lambda>x. x \<noteq> of_char CHR ''('') call))"
  show ?thesis
  proof (cases "keep_upper uc ?segs")
    case (Inl e)
    then have e: "e = IndexError ''string index out of range''" by (rule keep_upper_error)
    have "[] \<in> set ?segs" using keep_upper_total [of ?segs uc] Inl by auto
    then show ?thesis
      unfolding Types_from_call_def item_split_on_0 using Inl e by simp
  next
    case (Inr r)
    then have "r = []" using keep_upper_none [OF assms] by blast
    then show ?thesis
      unfolding Types_from_call_def item_split_on_0 using Inr by (simp add: item_def)
  qed
qed

theorem Types_from_call_no_upper_witness:
  "Types_from_call ascii_upper one_token (py ''obj.run(x)'')
     = Inl (IndexError ''list index out of range'')"
  using Types_from_call_no_upper [of "py ''obj.run(x)''" ascii_upper one_token]
  by (simp add: py_def isupper_def)

section \<open>Context.from_call on the example of the specification\<close>

text \<open>
  Whatever the tokenizer, the two cleaned arguments it receives for the call
  \<^verbatim>\<open>m(a.B<T>, c[])\<close> are \<^verbatim>\<open>B\<close> and \<^verbatim>\<open> c\<close>: the blank after the comma stays.
\<close>

lemma Context_from_call_cleaned_arguments:
  "Context_from_call sc (py ''m(a.B<T>, c[])'')
     = Inr (filter (\<lambda>c. \<not> c = []) (sc (py ''B'') @ sc (py '' c'')))"
  by (simp add: Context_from_call_def py_def item_def)

text \<open>
  Claim C8, as stated: \<^verbatim>\<open>Context.from_call("m(a.B<T>, c[])")\<close> returns \<^verbatim>\<open>["b", "c"]\<close>. It
  does not.
\<close>

theorem Context_from_call_example_counterexample:
  "Context_from_call split_camel (py ''m(a.B<T>, c[])'') \<noteq> Inr [py ''b'', py ''c'']"
  by (simp add: Context_from_call_def py_def item_def split_camel_def to_lower_def
        ascii_upper_def ascii_lower_def)

text \<open>
  Claim C8, amended: \<^verbatim>\<open>Context.from_call("m(a.B<T>, c[])")\<close> returns \<^verbatim>\<open>["b", " c"]\<close>. The
  argument substring is split on commas, the last dot-segment of each argument is
  taken, generic suffixes and array markers are removed, the pieces are camel-case
  split and empty tokens dropped; blanks around an argument are not removed, so the
  second token keeps its leading blank.
\<close>

theorem Context_from_call_example:
  "Context_from_call split_camel (py ''m(a.B<T>, c[])'') = Inr [py ''b'', py '' c'']"
  by (simp add: Context_from_call_def py_def item_def split_camel_def to_lower_def
        ascii_upper_def ascii_lower_def)

section \<open>Javadoc.read_data_point and the unknown sentinel\<close>

lemma encode_ascii_fails: "c \<in> set s \<Longrightarrow> 128 \<le> c \<Longrightarrow> encode_ascii s = Inl UnicodeEncodeError"
  unfolding encode_ascii_def list_all_iff by (auto intro: bexI [of _ c])

text \<open>
  Claim C5. For a program record whose \<^verbatim>\<open>javadoc\<close> field is absent or the empty string,
  and for a record whose javadoc string has a non-ASCII character (a code point of
  128 or more), \<^verbatim>\<open>Javadoc.read_data_point\<close> returns the whitespace-split of the
  sentinel \<^verbatim>\<open>UNK\<close>. The function has no error result: the encoding error is caught.
\<close>

theorem Javadoc_read_data_point_sentinel:
  assumes "p_javadoc program = None \<or> p_javadoc program = Some [] \<or>
           (\<exists>s. p_javadoc program = Some s \<and> (\<exists>c\<in>set s. 128 \<le> c))"
  shows "Javadoc_read_data_point UNK program = split_ws UNK"
proof -
  consider (absent) "p_javadoc program = None" | (empty) "p_javadoc program = Some []"
    | (nonascii) s c where "p_javadoc program = Some s" "c \<in> set s" "128 \<le> c"
    using assms by auto
  then show ?thesis
  proof cases
    case absent
    then show ?thesis
      by (simp add: Javadoc_read_data_point_def split: sum.splits codec_error.splits)
  next
    case empty
    then show ?thesis
      by (simp add: Javadoc_read_data_point_def split: sum.splits codec_error.splits)
  next
    case nonascii
    then have "s \<noteq> []" by auto
    then show ?thesis
      using nonascii encode_ascii_fails [OF nonascii(2,3)]
      by (simp add: Javadoc_read_data_point_def)
  qed
qed

theorem Javadoc_read_data_point_sentinel_witness:
  "Javadoc_read_data_point (py ''_UNK_'')
     \<lparr>p_keywords = None, p_types = None, p_context = None, p_javadoc = Some [99, 97, 102, 233]\<rparr>
   = [py ''_UNK_'']"
  using Javadoc_read_data_point_sentinel
    [of "\<lparr>p_keywords = None, p_types = None, p_context = None,
           p_javadoc = Some [99, 97, 102, 233]\<rparr>"
        "py ''_UNK_''"]
  by (simp add: split_ws_def py_def is_space_def)

section \<open>Deduplication in read_data_point\<close>

lemma set_add_distinct: "distinct s \<Longrightarrow> distinct (set_add h s x)"
proof (cases "x \<in> set s")
  case True
  then show "distinct s \<Longrightarrow> ?thesis" by (simp add: set_add_def)
next
  case False
  assume d: "distinct s"
  let ?i = "min (h x) (length s)"
  have "distinct (take ?i s)" "distinct (drop ?i s)"
    "set (take ?i s) \<inter> set (drop ?i s) = {}"
    using d by (simp_all add: set_take_disj_set_drop_if_distinct)
  moreover have "x \<notin> set (take ?i s)" "x \<notin> set (drop ?i s)"
    using False by (auto dest: in_set_takeD in_set_dropD)
  ultimately show ?thesis using False
    by (simp add: set_add_def Let_def)
qed

lemma set_add_set: "set (set_add h s x) = insert x (set s)"
proof (cases "x \<in> set s")
  case True
  then show ?thesis by (auto simp: set_add_def)
next
  case False
  let ?i = "min (h x) (length s)"
  have "set (take ?i s) \<union> set (drop ?i s) = set s"
    by (metis append_take_drop_id set_append)
  then show ?thesis using False by (auto simp: set_add_def Let_def)
qed

lemma set_add_present: "x \<in> set s \<Longrightarrow> set_add h s x = s"
  by (simp add: set_add_def)

lemma foldl_set_add_distinct: "distinct s \<Longrightarrow> distinct (foldl (set_add h) s xs)"
  by (induction xs arbitrary: s) (simp_all add: set_add_distinct)

lemma foldl_set_add_set: "set (foldl (set_add h) s xs) = set s \<union> set xs"
  by (induction xs arbitrary: s) (simp_all add: set_add_set)

lemma list_set_distinct: "distinct (list_set h xs)"
  by (simp add: list_set_def foldl_set_add_distinct)

lemma list_set_set: "set (list_set h xs) = set xs"
  by (simp add: list_set_def foldl_set_add_set)

lemma list_set_Nil: "list_set h [] = []"
  by (simp add: list_set_def)

text \<open>Every enumeration of the elements is the iteration order under some hash.\<close>

lemma filter_insert_notin:
  "x \<notin> set a \<Longrightarrow> filter (\<lambda>y. y = x \<or> P y) a = filter P a"
  by (induction a) auto

lemma set_add_place:
  assumes d: "distinct zs" and xz: "x \<in> set zs" and xp: "x \<notin> set p"
    and hx: "h x = length (filter (\<lambda>y. y \<in> set p) (takeWhile (\<lambda>y. y \<noteq> x) zs))"
  shows "set_add h (filter (\<lambda>y. y \<in> set p) zs) x = filter (\<lambda>y. y = x \<or> y \<in> set p) zs"
proof -
  let ?P = "\<lambda>y. y \<in> set p"
  obtain a b where ab: "zs = a @ x # b" and xa: "x \<notin> set a"
    using split_list_first [OF xz] by blast
  have xb: "x \<notin> set b" using d ab by simp
  have "takeWhile (\<lambda>y. y \<noteq> x) (a @ x # b) = a" using xa by (rule takeWhile_upto)
  then have hx': "h x = length (filter ?P a)" using hx ab by simp
  have s: "filter ?P (a @ x # b) = filter ?P a @ filter ?P b" using xp by simp
  have notin: "x \<notin> set (filter ?P a @ filter ?P b)" using xp by simp
  have "set_add h (filter ?P a @ filter ?P b) x = filter ?P a @ x # filter ?P b"
    using notin by (simp add: set_add_def hx')
  moreover have "filter (\<lambda>y. y = x \<or> ?P y) (a @ x # b) = filter ?P a @ x # filter ?P b"
    using filter_insert_notin [OF xa, of ?P] filter_insert_notin [OF xb, of ?P] by simp
  ultimately show ?thesis unfolding ab s by simp
qed

lemma order_hash_step:
  assumes d: "distinct zs" and xz: "x \<in> set zs"
  shows "set_add (order_hash (p @ x # r) zs) (filter (\<lambda>y. y \<in> set p) zs) x
           = filter (\<lambda>y. y = x \<or> y \<in> set p) zs"
proof (cases "x \<in> set p")
  case True
  then have "x \<in> set (filter (\<lambda>y. y \<in> set p) zs)" using xz by simp
  then have "set_add (order_hash (p @ x # r) zs) (filter (\<lambda>y. y \<in> set p) zs) x
               = filter (\<lambda>y. y \<in> set p) zs"
    by (rule set_add_present)
  moreover have "filter (\<lambda>y. y = x \<or> y \<in> set p) zs = filter (\<lambda>y. y \<in> set p) zs"
    by (rule filter_cong) (use True in auto)
  ultimately show ?thesis by (simp only:)
next
  case False
  have "takeWhile (\<lambda>y. y \<noteq> x) (p @ x # r) = p" using False by (rule takeWhile_upto)
  then have "order_hash (p @ x # r) zs x
               = length (filter (\<lambda>y. y \<in> set p) (takeWhile (\<lambda>y. y \<noteq> x) zs))"
    by (simp only: order_hash_def)
  then show ?thesis by (rule set_add_place [OF d xz False])
qed

lemma order_hash_foldl:
  "distinct zs \<Longrightarrow> set zs = set (p @ r) \<Longrightarrow>
     foldl (set_add (order_hash (p @ r) zs)) (filter (\<lambda>y. y \<in> set p) zs) r = zs"
proof (induction r arbitrary: p)
  case Nil
  then have "filter (\<lambda>y. y \<in> set p) zs = zs" by simp
  then show ?case by simp
next
  case (Cons x r)
  have xz: "x \<in> set zs" using Cons.prems(2) by simp
  have "set zs = set ((p @ [x]) @ r)" using Cons.prems(2) by simp
  from Cons.IH [OF Cons.prems(1) this]
  have "foldl (set_add (order_hash (p @ x # r) zs)) (filter (\<lambda>y. y = x \<or> y \<in> set p) zs) r = zs"
    by simp
  then show ?case
    by (simp only: foldl_Cons order_hash_step [OF Cons.prems(1) xz])
qed

lemma list_set_any_order:
  assumes "distinct zs" and "set zs = set xs"
  shows "\<exists>h. list_set h xs = zs"
proof -
  have "list_set (order_hash xs zs) xs = zs"
    using order_hash_foldl [of zs "[]" xs] assms by (simp add: list_set_def)
  then show ?thesis by blast
qed

lemma Keywords_read_data_point_facts:
  "distinct (Keywords_read_data_point h program)"
  "set (Keywords_read_data_point h program)
     = (case p_keywords program of None \<Rightarrow> {} | Some v \<Rightarrow> set v)"
  "Keywords_read_data_point h (program\<lparr>p_keywords := None\<rparr>) = []"
  by (simp_all add: Keywords_read_data_point_def list_set_distinct list_set_set list_set_Nil
        split: option.splits)

lemma Types_read_data_point_facts:
  "distinct (Types_read_data_point h program)"
  "set (Types_read_data_point h program)
     = (case p_types program of None \<Rightarrow> {} | Some v \<Rightarrow> set v)"
  "Types_read_data_point h (program\<lparr>p_types := None\<rparr>) = []"
  by (simp_all add: Types_read_data_point_def list_set_distinct list_set_set list_set_Nil
        split: option.splits)

lemma Context_read_data_point_facts:
  "distinct (Context_read_data_point h program)"
  "set (Context_read_data_point h program)
     = (case p_context program of None \<Rightarrow> {} | Some v \<Rightarrow> set v)"
  "Context_read_data_point h (program\<lparr>p_context := None\<rparr>) = []"
  by (simp_all add: Context_read_data_point_def list_set_distinct list_set_set list_set_Nil
        split: option.splits)

text \<open>
  Claim C3. For every program record and every iteration order of the interpreter's
  sets, the lists that \<^verbatim>\<open>read_data_point\<close> of \<^verbatim>\<open>Keywords\<close>, \<^verbatim>\<open>Types\<close> and \<^verbatim>\<open>Context\<close> return
  have no duplicate entry, also when the field of the record has duplicates; they hold
  exactly the entries of the field; and a record without the field gives the empty
  list.
\<close>

theorem read_data_point_dedup:
  "distinct (Keywords_read_data_point h program) \<and>
   distinct (Types_read_data_point h program) \<and>
   distinct (Context_read_data_point h program) \<and>
   set (Keywords_read_data_point h program)
     = (case p_keywords program of None \<Rightarrow> {} | Some v \<Rightarrow> set v) \<and>
   set (Types_read_data_point h program)
     = (case p_types program of None \<Rightarrow> {} | Some v \<Rightarrow> set v) \<and>
   set (Context_read_data_point h program)
     = (case p_context program of None \<Rightarrow> {} | Some v \<Rightarrow> set v) \<and>
   Keywords_read_data_point h (program\<lparr>p_keywords := None\<rparr>) = [] \<and>
   Types_read_data_point h (program\<lparr>p_types := None\<rparr>) = [] \<and>
   Context_read_data_point h (program\<lparr>p_context := None\<rparr>) = []"
  using Keywords_read_data_point_facts [of h program] Types_read_data_point_facts [of h program]
    Context_read_data_point_facts [of h program]
  by blast

section \<open>The padding symbol in the vocabulary of Javadoc.set_dicts\<close>

lemma map_of_fold_update_other:
  "k \<notin> fst ` set ps \<Longrightarrow>
     map_of (fold (\<lambda>(k, v) d. AList.update k v d) ps al) k = map_of al k"
  by (induction ps arbitrary: al) (auto simp: update_conv')

lemma dom_fold_update:
  "fst ` set (fold (\<lambda>(k, v) d. AList.update k v d) ps al) = fst ` set al \<union> fst ` set ps"
proof (induction ps arbitrary: al)
  case Nil
  show ?case by simp
next
  case (Cons p ps)
  obtain k v where p: "p = (k, v)" by (cases p)
  have "fst ` set (AList.update k v al) = insert k (fst ` set al)"
    by (simp add: dom_update)
  then show ?case using Cons.IH [of "AList.update k v al"] p by auto
qed

lemma dict_zip_range_keys: "fst ` set (dict_zip_range ks) = set ks"
proof -
  have "map fst (zip ks [0..<length ks]) = ks" by simp
  then have "fst ` set (zip ks [0..<length ks]) = set ks" by (metis set_map)
  then show ?thesis by (simp add: dict_zip_range_def dom_fold_update)
qed

lemma dict_zip_range_first:
  assumes "k \<notin> set ks"
  shows "map_of (dict_zip_range (k # ks)) k = Some 0"
proof -
  have z: "zip (k # ks) [0..<length (k # ks)] = (k, 0) # zip ks [Suc 0..<Suc (length ks)]"
    by (simp add: upt_conv_Cons del: upt_Suc)
  have "k \<notin> fst ` set (zip ks [Suc 0..<Suc (length ks)])"
    using assms by (auto dest: set_zip_leftD)
  then show ?thesis
    unfolding dict_zip_range_def z
    by (simp add: map_of_fold_update_other)
qed

lemma map_of_wrap:
  "map_of (map (\<lambda>(k, v). (VStr k, VInt (int v))) al) (VStr w)
     = map_option (\<lambda>v. VInt (int v)) (map_of al w)"
  by (induction al) auto

lemma map_of_eq_None_keys: "map_of al k = None \<longleftrightarrow> k \<notin> fst ` set al"
  by (simp add: map_of_eq_None_iff)


lemma set_dicts_corpus:
  assumes "attrs self (py ''pretrained_embed'') = Some pe" "\<not> truthy pe"
  shows "\<exists>self'. Javadoc_set_dicts h C0 load_chars self data = Inr self'
           \<and> attrs self' (py ''chars'') = Some (VList (map VStr (C0 # list_set h (concat data))))
           \<and> attrs self' (py ''vocab'')
               = Some (VDict (map (\<lambda>(k, v). (VStr k, VInt (int v)))
                                (dict_zip_range (C0 # list_set h (concat data)))))"
  using assms
  by (simp add: Javadoc_set_dicts_def getattr_def setattr_def Let_def py_def)

lemma set_dicts_pretrained:
  assumes "attrs self (py ''pretrained_embed'') = Some pe" "truthy pe"
    and "attrs self (py ''save_dir'') = Some (VStr dir)"
    and "attrs self (py ''name'') = Some (VStr name)"
    and "load_chars (path_join (path_join dir (py ''embed_'' @ name)) (py ''config.json'')) = Inr chars"
  shows "\<exists>self'. Javadoc_set_dicts h C0 load_chars self data = Inr self'
           \<and> attrs self' (py ''chars'') = Some (VList (map VStr chars))
           \<and> attrs self' (py ''vocab'')
               = Some (VDict (map (\<lambda>(k, v). (VStr k, VInt (int v))) (dict_zip_range chars)))"
  using assms
  by (simp add: Javadoc_set_dicts_def getattr_def setattr_def Let_def py_def)

lemma vocab_id_stored:
  assumes "attrs self (py ''vocab'')
             = Some (VDict (map (\<lambda>(k, v). (VStr k, VInt (int v))) (dict_zip_range chars)))"
  shows "vocab_id self w = map_option (\<lambda>v. VInt (int v)) (map_of (dict_zip_range chars) w)"
  using assms by (simp add: vocab_id_def map_of_wrap)

text \<open>
  Claim C6, amended. When the vocabulary is built from the corpus (the attribute
  \<^verbatim>\<open>pretrained_embed\<close> is false), \<^verbatim>\<open>set_dicts\<close> succeeds, the list \<^verbatim>\<open>chars\<close> starts with the
  padding symbol \<^verbatim>\<open>C0\<close>, and the vocabulary gives \<^verbatim>\<open>C0\<close> the id 0 provided \<^verbatim>\<open>C0\<close> is not
  itself a token of the corpus. When the pretrained embedding is used, \<^verbatim>\<open>chars\<close> is the
  persisted list as it is, and the vocabulary has the padding symbol exactly when
  that list has it.
\<close>

theorem Javadoc_set_dicts_padding:
  assumes pe: "attrs self (py ''pretrained_embed'') = Some pe"
  shows "(\<not> truthy pe \<longrightarrow>
            (\<exists>self' rest. Javadoc_set_dicts h C0 load_chars self data = Inr self'
               \<and> attrs self' (py ''chars'') = Some (VList (VStr C0 # rest))
               \<and> (C0 \<notin> set (concat data) \<longrightarrow> vocab_id self' C0 = Some (VInt 0))))
       \<and> (truthy pe \<longrightarrow> attrs self (py ''save_dir'') = Some (VStr dir) \<longrightarrow>
            attrs self (py ''name'') = Some (VStr name) \<longrightarrow>
            load_chars (path_join (path_join dir (py ''embed_'' @ name)) (py ''config.json''))
              = Inr chars \<longrightarrow>
            (\<exists>self'. Javadoc_set_dicts h C0 load_chars self data = Inr self'
               \<and> attrs self' (py ''chars'') = Some (VList (map VStr chars))
               \<and> (vocab_id self' C0 = None \<longleftrightarrow> C0 \<notin> set chars)))"
proof (intro conjI impI)
  assume f: "\<not> truthy pe"
  from set_dicts_corpus [OF pe f, of h C0 load_chars data]
  obtain self' where r: "Javadoc_set_dicts h C0 load_chars self data = Inr self'"
    and c: "attrs self' (py ''chars'') = Some (VList (map VStr (C0 # list_set h (concat data))))"
    and v: "attrs self' (py ''vocab'')
               = Some (VDict (map (\<lambda>(k, v). (VStr k, VInt (int v)))
                                (dict_zip_range (C0 # list_set h (concat data)))))"
    by blast
  have z: "C0 \<notin> set (concat data) \<longrightarrow> vocab_id self' C0 = Some (VInt 0)"
  proof
    assume "C0 \<notin> set (concat data)"
    then have "C0 \<notin> set (list_set h (concat data))" by (simp add: list_set_set)
    then have "map_of (dict_zip_range (C0 # list_set h (concat data))) C0 = Some 0"
      by (rule dict_zip_range_first)
    then show "vocab_id self' C0 = Some (VInt 0)"
      by (simp add: vocab_id_stored [OF v])
  qed
  have c': "attrs self' (py ''chars'')
              = Some (VList (VStr C0 # map VStr (list_set h (concat data))))"
    using c by simp
  show "\<exists>self' rest. Javadoc_set_dicts h C0 load_chars self data = Inr self'
               \<and> attrs self' (py ''chars'') = Some (VList (VStr C0 # rest))
               \<and> (C0 \<notin> set (concat data) \<longrightarrow> vocab_id self' C0 = Some (VInt 0))"
    by (rule exI [of _ self'], rule exI [of _ "map VStr (list_set h (concat data))"], intro conjI)
      (rule r, rule c', rule z)
next
  assume t: "truthy pe" and d: "attrs self (py ''save_dir'') = Some (VStr dir)"
    and n: "attrs self (py ''name'') = Some (VStr name)"
    and l: "load_chars (path_join (path_join dir (py ''embed_'' @ name)) (py ''config.json''))
              = Inr chars"
  from set_dicts_pretrained [where load_chars = load_chars and h = h and ?C0.0 = C0 and data = data, OF pe t d n l]
  obtain self' where r: "Javadoc_set_dicts h C0 load_chars self data = Inr self'"
    and c: "attrs self' (py ''chars'') = Some (VList (map VStr chars))"
    and v: "attrs self' (py ''vocab'')
               = Some (VDict (map (\<lambda>(k, v). (VStr k, VInt (int v))) (dict_zip_range chars)))"
    by blast
  have iff: "vocab_id self' C0 = None \<longleftrightarrow> C0 \<notin> set chars"
    by (simp add: vocab_id_stored [OF v] map_of_eq_None_iff dict_zip_range_keys)
  show "\<exists>self'. Javadoc_set_dicts h C0 load_chars self data = Inr self'
               \<and> attrs self' (py ''chars'') = Some (VList (map VStr chars))
               \<and> (vocab_id self' C0 = None \<longleftrightarrow> C0 \<notin> set chars)"
    by (rule exI [of _ self'], intro conjI) (rule r, rule c, rule iff)
qed


theorem Javadoc_set_dicts_padding_witness:
  "\<exists>self'. Javadoc_set_dicts front_hash (py ''C0'') (persisted_chars [])
              \<lparr>kind = Javadoc, attrs = [py ''pretrained_embed'' \<mapsto> VBool False]\<rparr>
              [[py ''a'', py ''b''], [py ''a'']] = Inr self'
           \<and> vocab_id self' (py ''C0'') = Some (VInt 0)"
  using Javadoc_set_dicts_padding
    [of "\<lparr>kind = Javadoc, attrs = [py ''pretrained_embed'' \<mapsto> VBool False]\<rparr>" "VBool False"
        front_hash "py ''C0''" "persisted_chars []" "[[py ''a'', py ''b''], [py ''a'']]"]
  by (auto simp: py_def)

text \<open>
  Claim C6, as stated: after \<^verbatim>\<open>set_dicts\<close>, in both branches, the vocabulary has the
  padding symbol at one fixed id. With a persisted list \<^verbatim>\<open>["a", "C0"]\<close> the id is 1, with
  the persisted list \<^verbatim>\<open>["a"]\<close> the symbol is absent, and built from an empty corpus the
  id is 0.
\<close>

theorem Javadoc_set_dicts_padding_counterexample:
  "(case Javadoc_set_dicts front_hash (py ''C0'') (persisted_chars [py ''a'', py ''C0''])
           \<lparr>kind = Javadoc,
            attrs = [py ''pretrained_embed'' \<mapsto> VBool True, py ''save_dir'' \<mapsto> VStr (py ''save''),
                     py ''name'' \<mapsto> VStr (py ''javadoc'')]\<rparr> []
    of Inl e \<Rightarrow> None | Inr self' \<Rightarrow> vocab_id self' (py ''C0'')) = Some (VInt 1)
   \<and> (case Javadoc_set_dicts front_hash (py ''C0'') (persisted_chars [py ''a''])
           \<lparr>kind = Javadoc,
            attrs = [py ''pretrained_embed'' \<mapsto> VBool True, py ''save_dir'' \<mapsto> VStr (py ''save''),
                     py ''name'' \<mapsto> VStr (py ''javadoc'')]\<rparr> []
    of Inl e \<Rightarrow> Some VNone | Inr self' \<Rightarrow> vocab_id self' (py ''C0'')) = None
   \<and> (case Javadoc_set_dicts front_hash (py ''C0'') (persisted_chars [])
           \<lparr>kind = Javadoc, attrs = [py ''pretrained_embed'' \<mapsto> VBool False]\<rparr> []
    of Inl e \<Rightarrow> None | Inr self' \<Rightarrow> vocab_id self' (py ''C0'')) = Some (VInt 0)"
  by (simp add: Javadoc_set_dicts_def getattr_def setattr_def vocab_id_def py_def
        persisted_chars_def dict_zip_range_def list_set_def path_join_def)

section \<open>The round trip of init_config and dump_config\<close>

lemma init_attrs_ok:
  "set CE \<subseteq> dom cfg \<Longrightarrow>
     init_attrs CE self cfg = Inr (self\<lparr>attrs := attrs self ++ (cfg |` set CE)\<rparr>)"
proof (induction CE arbitrary: self)
  case Nil
  then show ?case by simp
next
  case (Cons a CE)
  then obtain v where v: "cfg a = Some v" by auto
  have sub: "set CE \<subseteq> dom cfg" using Cons.prems by simp
  have m: "(attrs self)(a \<mapsto> v) ++ (cfg |` set CE) = attrs self ++ (cfg |` set (a # CE))"
  proof
    fix x
    show "((attrs self)(a \<mapsto> v) ++ (cfg |` set CE)) x = (attrs self ++ (cfg |` set (a # CE))) x"
      using v by (cases "x \<in> set CE") (auto simp: map_add_def restrict_map_def split: option.splits)
  qed
  have "init_attrs (a # CE) self cfg = init_attrs CE (setattr self a v) cfg"
    using v by simp
  also have "\<dots> = Inr ((setattr self a v)
                       \<lparr>attrs := attrs (setattr self a v) ++ (cfg |` set CE)\<rparr>)"
    by (rule Cons.IH [OF sub])
  also have "(setattr self a v)\<lparr>attrs := attrs (setattr self a v) ++ (cfg |` set CE)\<rparr>
               = self\<lparr>attrs := (attrs self)(a \<mapsto> v) ++ (cfg |` set CE)\<rparr>"
    by (simp add: setattr_def)
  finally show ?case by (simp only: m)
qed

lemma dump_attrs_ok:
  "\<forall>a\<in>set CE. attrs self a \<noteq> None \<Longrightarrow>
     dump_attrs CE self js = Inr (js ++ (attrs self |` set CE))"
proof (induction CE arbitrary: js)
  case Nil
  then show ?case by simp
next
  case (Cons a CE)
  then obtain v where v: "attrs self a = Some v" by auto
  have rest: "\<forall>a\<in>set CE. attrs self a \<noteq> None" using Cons.prems by simp
  have m: "js(a \<mapsto> v) ++ (attrs self |` set CE) = js ++ (attrs self |` set (a # CE))"
  proof
    fix x
    show "(js(a \<mapsto> v) ++ (attrs self |` set CE)) x = (js ++ (attrs self |` set (a # CE))) x"
      using v by (cases "x \<in> set CE") (auto simp: map_add_def restrict_map_def split: option.splits)
  qed
  have "dump_attrs (a # CE) self js = dump_attrs CE self (js(a \<mapsto> v))"
    using v by (simp add: getattr_def)
  also have "\<dots> = Inr (js(a \<mapsto> v) ++ (attrs self |` set CE))"
    by (rule Cons.IH [OF rest])
  finally show ?case by (simp only: m)
qed

lemma round_trip_attrs:
  assumes sub: "set CE \<subseteq> dom cfg" and lda: "py ''lda'' \<notin> set CE"
  shows "dump_config CE (setattr (self\<lparr>attrs := attrs self ++ (cfg |` set CE)\<rparr>) (py ''lda'') v)
           = Inr (cfg |` set CE)"
proof -
  let ?s = "setattr (self\<lparr>attrs := attrs self ++ (cfg |` set CE)\<rparr>) (py ''lda'') v"
  have at: "attrs ?s a = cfg a" if "a \<in> set CE" for a
    using that sub lda by (auto simp: setattr_def map_add_def restrict_map_def split: option.splits)
  have "\<forall>a\<in>set CE. attrs ?s a \<noteq> None" using at sub by auto
  then have "dump_config CE ?s = Inr (Map.empty ++ (attrs ?s |` set CE))"
    unfolding dump_config_def by (rule dump_attrs_ok)
  moreover have "attrs ?s |` set CE = cfg |` set CE"
  proof
    fix x show "(attrs ?s |` set CE) x = (cfg |` set CE) x"
      using at [of x] by (simp add: restrict_map_def)
  qed
  ultimately show ?thesis by simp
qed

text \<open>
  Claim C1, amended. Let the configuration record hold every recognized attribute,
  and let \<^verbatim>\<open>lda\<close>, the attribute in which \<^verbatim>\<open>load_embedding\<close> keeps the topic model, not be
  one of them. For an instance of \<^verbatim>\<open>Keywords\<close>, \<^verbatim>\<open>Types\<close> or \<^verbatim>\<open>Context\<close> whose model file
  loads, \<^verbatim>\<open>init_config\<close> succeeds and \<^verbatim>\<open>dump_config\<close> then returns the record restricted
  to the recognized attributes. For an instance of \<^verbatim>\<open>Javadoc\<close>, \<^verbatim>\<open>init_config\<close> raises
  \<^verbatim>\<open>NotImplementedError\<close>, since the class has no \<^verbatim>\<open>load_embedding\<close> of its own.
\<close>

theorem config_round_trip:
  assumes sub: "set CONFIG_ENCODER \<subseteq> dom cfg"
  shows "(py ''lda'' \<notin> set CONFIG_ENCODER \<longrightarrow>
            (kind self = Keywords \<and>
               LDA_from_file (path_join (path_join save_dir (py ''embed_keywords'')) (py ''model.pkl''))
                 = Inr m
             \<or> kind self = Types \<and>
               LDA_from_file (path_join (path_join save_dir (py ''embed_types'')) (py ''model.pkl''))
                 = Inr m
             \<or> kind self = Context \<and>
               LDA_from_file (path_join (path_join save_dir (py ''embed_context'')) (py ''model.pkl''))
                 = Inr m) \<longrightarrow>
            (\<exists>self'. init_config CONFIG_ENCODER LDA_from_file self cfg save_dir = Inr self'
               \<and> dump_config CONFIG_ENCODER self' = Inr (cfg |` set CONFIG_ENCODER)))
       \<and> (kind self = Javadoc \<longrightarrow>
            init_config CONFIG_ENCODER LDA_from_file self cfg save_dir
              = Inl (NotImplementedError ''load_embedding() has not been implemented''))"
proof (intro conjI impI)
  let ?s1 = "self\<lparr>attrs := attrs self ++ (cfg |` set CONFIG_ENCODER)\<rparr>"
  assume lda: "py ''lda'' \<notin> set CONFIG_ENCODER"
    and load: "kind self = Keywords \<and>
               LDA_from_file (path_join (path_join save_dir (py ''embed_keywords'')) (py ''model.pkl''))
                 = Inr m
             \<or> kind self = Types \<and>
               LDA_from_file (path_join (path_join save_dir (py ''embed_types'')) (py ''model.pkl''))
                 = Inr m
             \<or> kind self = Context \<and>
               LDA_from_file (path_join (path_join save_dir (py ''embed_context'')) (py ''model.pkl''))
                 = Inr m"
  have "load_embedding LDA_from_file ?s1 save_dir = Inr (setattr ?s1 (py ''lda'') (VLda m))"
    using load
    by (auto simp: load_embedding_def Keywords_load_embedding_def Types_load_embedding_def
          Context_load_embedding_def Let_def)
  then have i: "init_config CONFIG_ENCODER LDA_from_file self cfg save_dir
                  = Inr (setattr ?s1 (py ''lda'') (VLda m))"
    by (simp add: init_config_def init_attrs_ok [OF sub])
  show "\<exists>self'. init_config CONFIG_ENCODER LDA_from_file self cfg save_dir = Inr self'
               \<and> dump_config CONFIG_ENCODER self' = Inr (cfg |` set CONFIG_ENCODER)"
    by (rule exI [of _ "setattr ?s1 (py ''lda'') (VLda m)"], intro conjI)
      (rule i, rule round_trip_attrs [OF sub lda])
next
  assume "kind self = Javadoc"
  then show "init_config CONFIG_ENCODER LDA_from_file self cfg save_dir
              = Inl (NotImplementedError ''load_embedding() has not been implemented'')"
    by (simp add: init_config_def init_attrs_ok [OF sub] load_embedding_def
          Evidence_load_embedding_def)
qed

theorem config_round_trip_witness:
  "\<exists>self'. init_config [py ''name'', py ''units'', py ''tile''] (model_everywhere (LDA 5)) (new Keywords)
              [py ''name'' \<mapsto> VStr (py ''keywords''), py ''units'' \<mapsto> VInt 8, py ''tile'' \<mapsto> VInt 1,
               py ''comment'' \<mapsto> VNone] (py ''save'') = Inr self'
     \<and> dump_config [py ''name'', py ''units'', py ''tile''] self'
          = Inr ([py ''name'' \<mapsto> VStr (py ''keywords''), py ''units'' \<mapsto> VInt 8, py ''tile'' \<mapsto> VInt 1,
                  py ''comment'' \<mapsto> VNone]
                 |` set [py ''name'', py ''units'', py ''tile''])"
  using config_round_trip
    [of "[py ''name'', py ''units'', py ''tile'']"
        "[py ''name'' \<mapsto> VStr (py ''keywords''), py ''units'' \<mapsto> VInt 8, py ''tile'' \<mapsto> VInt 1,
          py ''comment'' \<mapsto> VNone]"
        "new Keywords" "model_everywhere (LDA 5)" "py ''save''" "LDA 5"]
  by (simp add: py_def new_def model_everywhere_def)

text \<open>
  Claim C1, as stated: the round trip holds for every evidence kind. For a
  \<^verbatim>\<open>Javadoc\<close> instance and a record with all recognized attributes, \<^verbatim>\<open>init_config\<close>
  followed by \<^verbatim>\<open>dump_config\<close> ends in \<^verbatim>\<open>NotImplementedError\<close>, although every model file
  loads.
\<close>

theorem config_round_trip_counterexample:
  "(case init_config [py ''name'', py ''units'', py ''tile''] (model_everywhere (LDA 5)) (new Javadoc)
           [py ''name'' \<mapsto> VStr (py ''javadoc''), py ''units'' \<mapsto> VInt 8, py ''tile'' \<mapsto> VInt 1]
           (py ''save'')
    of Inl e \<Rightarrow> Inl e
     | Inr self' \<Rightarrow> dump_config [py ''name'', py ''units'', py ''tile''] self')
   = Inl (NotImplementedError ''load_embedding() has not been implemented'')"
  by (simp add: init_config_def load_embedding_def Evidence_load_embedding_def new_def
        setattr_def py_def)

section \<open>Dispatch on the name in read_config\<close>

lemma init_attrs_kind: "init_attrs CE self cfg = Inr self' \<Longrightarrow> kind self' = kind self"
  by (induction CE arbitrary: self) (auto simp: setattr_def split: option.splits)

lemma load_embedding_kind: "load_embedding L self d = Inr self' \<Longrightarrow> kind self' = kind self"
  by (auto simp: load_embedding_def Keywords_load_embedding_def Types_load_embedding_def
        Context_load_embedding_def Evidence_load_embedding_def setattr_def Let_def
      split: kind.splits sum.splits)

lemma init_config_kind: "init_config CE L self cfg d = Inr self' \<Longrightarrow> kind self' = kind self"
  by (auto simp: init_config_def init_attrs_kind load_embedding_kind split: sum.splits)

lemma read_config_loop_Cons:
  "read_config_loop CE L d acc (cfg # js) = Inr es \<Longrightarrow>
     \<exists>k e. (cfg (py ''name'') = Some (VStr (py ''keywords'')) \<and> k = Keywords
             \<or> cfg (py ''name'') = Some (VStr (py ''types'')) \<and> k = Types
             \<or> cfg (py ''name'') = Some (VStr (py ''context'')) \<and> k = Context)
          \<and> init_config CE L (new k) cfg d = Inr e
          \<and> read_config_loop CE L d (acc @ [e]) js = Inr es"
  by (simp split: option.splits sum.splits if_splits) blast+


lemma read_config_loop_success:
  "read_config_loop CE L d acc js = Inr es \<Longrightarrow>
     \<exists>made. es = acc @ made \<and>
       list_all2 (\<lambda>cfg e.
           (cfg (py ''name'') = Some (VStr (py ''keywords'')) \<and> kind e = Keywords
            \<or> cfg (py ''name'') = Some (VStr (py ''types'')) \<and> kind e = Types
            \<or> cfg (py ''name'') = Some (VStr (py ''context'')) \<and> kind e = Context)
           \<and> init_config CE L (new (kind e)) cfg d = Inr e) js made"
proof (induction js arbitrary: acc)
  case Nil
  then show ?case by simp
next
  case (Cons cfg js)
  from read_config_loop_Cons [OF Cons.prems]
  obtain k e where
    nm: "cfg (py ''name'') = Some (VStr (py ''keywords'')) \<and> k = Keywords
         \<or> cfg (py ''name'') = Some (VStr (py ''types'')) \<and> k = Types
         \<or> cfg (py ''name'') = Some (VStr (py ''context'')) \<and> k = Context"
    and ini: "init_config CE L (new k) cfg d = Inr e"
    and rest: "read_config_loop CE L d (acc @ [e]) js = Inr es"
    by blast
  have ke: "kind e = k" using init_config_kind [OF ini] by (simp add: new_def)
  from Cons.IH [OF rest] obtain made where
    es: "es = (acc @ [e]) @ made" and
    all: "list_all2 (\<lambda>cfg e.
           (cfg (py ''name'') = Some (VStr (py ''keywords'')) \<and> kind e = Keywords
            \<or> cfg (py ''name'') = Some (VStr (py ''types'')) \<and> kind e = Types
            \<or> cfg (py ''name'') = Some (VStr (py ''context'')) \<and> kind e = Context)
           \<and> init_config CE L (new (kind e)) cfg d = Inr e) js made"
    by blast
  show ?case
    by (rule exI [of _ "e # made"]) (use es all nm ini ke in simp)
qed

lemma read_config_loop_append:
  "read_config_loop CE L d acc (pre @ rest)
     = (case read_config_loop CE L d acc pre of
          Inl err \<Rightarrow> Inl err
        | Inr acc' \<Rightarrow> read_config_loop CE L d acc' rest)"
  by (induction pre arbitrary: acc) (simp_all split: option.splits sum.splits)

lemma read_config_loop_invalid:
  assumes "bad (py ''name'') = Some n" "n \<noteq> VStr (py ''keywords'')" "n \<noteq> VStr (py ''types'')"
    "n \<noteq> VStr (py ''context'')"
  shows "read_config_loop CE L d acc (bad # post) = Inl (TypeError n)"
  using assms by simp

lemma init_config_total:
  assumes "\<forall>p. \<exists>m. L p = Inr m" "set CE \<subseteq> dom cfg" "k \<noteq> Javadoc"
  shows "\<exists>e. init_config CE L (new k) cfg d = Inr e"
proof -
  let ?s = "(new k)\<lparr>attrs := attrs (new k) ++ (cfg |` set CE)\<rparr>"
  have "\<exists>e. load_embedding L ?s d = Inr e"
  proof (cases k)
    case Keywords
    obtain m where "L (path_join (path_join d (py ''embed_keywords'')) (py ''model.pkl'')) = Inr m"
      using assms(1) by blast
    then show ?thesis using Keywords
      by (simp add: load_embedding_def Keywords_load_embedding_def new_def)
  next
    case Types
    obtain m where "L (path_join (path_join d (py ''embed_types'')) (py ''model.pkl'')) = Inr m"
      using assms(1) by blast
    then show ?thesis using Types
      by (simp add: load_embedding_def Types_load_embedding_def new_def)
  next
    case Context
    obtain m where "L (path_join (path_join d (py ''embed_context'')) (py ''model.pkl'')) = Inr m"
      using assms(1) by blast
    then show ?thesis using Context
      by (simp add: load_embedding_def Context_load_embedding_def new_def)
  next
    case Javadoc
    then show ?thesis using assms(3) by simp
  qed
  then show ?thesis by (simp add: init_config_def init_attrs_ok [OF assms(2)])
qed

lemma read_config_loop_total:
  assumes L: "\<forall>p. \<exists>m. L p = Inr m"
  shows "\<forall>cfg\<in>set js. set CE \<subseteq> dom cfg \<and>
           (cfg (py ''name'') = Some (VStr (py ''keywords''))
            \<or> cfg (py ''name'') = Some (VStr (py ''types''))
            \<or> cfg (py ''name'') = Some (VStr (py ''context''))) \<Longrightarrow>
         \<exists>es. read_config_loop CE L d acc js = Inr es"
proof (induction js arbitrary: acc)
  case Nil
  show ?case by simp
next
  case (Cons cfg js)
  have sub: "set CE \<subseteq> dom cfg" using Cons.prems by simp
  have nm: "cfg (py ''name'') = Some (VStr (py ''keywords''))
            \<or> cfg (py ''name'') = Some (VStr (py ''types''))
            \<or> cfg (py ''name'') = Some (VStr (py ''context''))" using Cons.prems by simp
  have rest: "\<forall>cfg\<in>set js. set CE \<subseteq> dom cfg \<and>
           (cfg (py ''name'') = Some (VStr (py ''keywords''))
            \<or> cfg (py ''name'') = Some (VStr (py ''types''))
            \<or> cfg (py ''name'') = Some (VStr (py ''context'')))" using Cons.prems by simp
  from nm obtain k where k: "k \<noteq> Javadoc"
    and step: "\<And>e. init_config CE L (new k) cfg d = Inr e \<Longrightarrow>
             read_config_loop CE L d acc (cfg # js) = read_config_loop CE L d (acc @ [e]) js"
  proof (elim disjE)
    assume "cfg (py ''name'') = Some (VStr (py ''keywords''))"
    then show ?thesis by (intro that [of Keywords]) simp_all
  next
    assume "cfg (py ''name'') = Some (VStr (py ''types''))"
    then show ?thesis by (intro that [of Types]) (simp_all add: py_def)
  next
    assume "cfg (py ''name'') = Some (VStr (py ''context''))"
    then show ?thesis by (intro that [of Context]) (simp_all add: py_def)
  qed
  from init_config_total [OF L sub k] obtain e where e: "init_config CE L (new k) cfg d = Inr e"
    by blast
  from Cons.IH [OF rest, of "acc @ [e]"] step [OF e] show ?case by simp
qed


text \<open>
  Claim C2. \<^verbatim>\<open>read_config\<close> dispatches on the \<^verbatim>\<open>name\<close> field of each entry. When it
  returns, it returns one instance per entry, in order: a \<^verbatim>\<open>Keywords\<close> instance for the
  name \<^verbatim>\<open>keywords\<close>, a \<^verbatim>\<open>Types\<close> instance for \<^verbatim>\<open>types\<close>, a \<^verbatim>\<open>Context\<close> instance for
  \<^verbatim>\<open>context\<close>, each initialized from its entry. An entry with any other name, reached
  after entries that were read without error, makes it raise \<^verbatim>\<open>TypeError\<close> for that
  name; \<^verbatim>\<open>javadoc\<close> is such a name. And it does return when every entry has one of the
  three names and all recognized attributes, and the model files load.
\<close>

theorem read_config_dispatch:
  "(read_config CE L js d = Inr es \<longrightarrow>
      list_all2 (\<lambda>cfg e.
           (cfg (py ''name'') = Some (VStr (py ''keywords'')) \<and> kind e = Keywords
            \<or> cfg (py ''name'') = Some (VStr (py ''types'')) \<and> kind e = Types
            \<or> cfg (py ''name'') = Some (VStr (py ''context'')) \<and> kind e = Context)
           \<and> init_config CE L (new (kind e)) cfg d = Inr e) js es)
   \<and> (read_config CE L pre d = Inr made \<longrightarrow> bad (py ''name'') = Some n \<longrightarrow>
        n \<noteq> VStr (py ''keywords'') \<longrightarrow> n \<noteq> VStr (py ''types'') \<longrightarrow> n \<noteq> VStr (py ''context'') \<longrightarrow>
        read_config CE L (pre @ bad # post) d = Inl (TypeError n))
   \<and> ((\<forall>p. \<exists>m. L p = Inr m) \<longrightarrow>
        (\<forall>cfg\<in>set js. set CE \<subseteq> dom cfg \<and>
           (cfg (py ''name'') = Some (VStr (py ''keywords''))
            \<or> cfg (py ''name'') = Some (VStr (py ''types''))
            \<or> cfg (py ''name'') = Some (VStr (py ''context'')))) \<longrightarrow>
        (\<exists>es. read_config CE L js d = Inr es))"
proof (intro conjI impI)
  assume "read_config CE L js d = Inr es"
  then have "read_config_loop CE L d [] js = Inr es" by (simp add: read_config_def)
  from read_config_loop_success [OF this]
  show "list_all2 (\<lambda>cfg e.
           (cfg (py ''name'') = Some (VStr (py ''keywords'')) \<and> kind e = Keywords
            \<or> cfg (py ''name'') = Some (VStr (py ''types'')) \<and> kind e = Types
            \<or> cfg (py ''name'') = Some (VStr (py ''context'')) \<and> kind e = Context)
           \<and> init_config CE L (new (kind e)) cfg d = Inr e) js es"
    by simp
next
  assume pre: "read_config CE L pre d = Inr made" and n: "bad (py ''name'') = Some n"
    "n \<noteq> VStr (py ''keywords'')" "n \<noteq> VStr (py ''types'')" "n \<noteq> VStr (py ''context'')"
  have "read_config_loop CE L d [] (pre @ bad # post) = read_config_loop CE L d made (bad # post)"
    using pre by (simp add: read_config_loop_append read_config_def)
  also have "\<dots> = Inl (TypeError n)" using n by (rule read_config_loop_invalid)
  finally show "read_config CE L (pre @ bad # post) d = Inl (TypeError n)"
    by (simp add: read_config_def)
next
  assume "\<forall>p. \<exists>m. L p = Inr m"
    and "\<forall>cfg\<in>set js. set CE \<subseteq> dom cfg \<and>
           (cfg (py ''name'') = Some (VStr (py ''keywords''))
            \<or> cfg (py ''name'') = Some (VStr (py ''types''))
            \<or> cfg (py ''name'') = Some (VStr (py ''context'')))"
  then show "\<exists>es. read_config CE L js d = Inr es"
    unfolding read_config_def by (rule read_config_loop_total)
qed



theorem read_config_dispatch_witness:
  "(\<exists>es. read_config [py ''name'', py ''tile''] (model_everywhere (LDA 5))
            [[py ''name'' \<mapsto> VStr (py ''keywords''), py ''tile'' \<mapsto> VInt 1],
             [py ''name'' \<mapsto> VStr (py ''types''), py ''tile'' \<mapsto> VInt 2],
             [py ''name'' \<mapsto> VStr (py ''context''), py ''tile'' \<mapsto> VInt 3]] (py ''save'') = Inr es
          \<and> map kind es = [Keywords, Types, Context])
   \<and> read_config [py ''name'', py ''tile''] (model_everywhere (LDA 5))
        [[py ''name'' \<mapsto> VStr (py ''keywords''), py ''tile'' \<mapsto> VInt 1],
         [py ''name'' \<mapsto> VStr (py ''javadoc''), py ''tile'' \<mapsto> VInt 2]] (py ''save'')
      = Inl (TypeError (VStr (py ''javadoc'')))"
proof -
  define CE where "CE = [py ''name'', py ''tile'']"
  define L where "L = model_everywhere (LDA 5)"
  define kw where "kw = [py ''name'' \<mapsto> VStr (py ''keywords''), py ''tile'' \<mapsto> VInt 1]"
  define ty where "ty = [py ''name'' \<mapsto> VStr (py ''types''), py ''tile'' \<mapsto> VInt 2]"
  define cx where "cx = [py ''name'' \<mapsto> VStr (py ''context''), py ''tile'' \<mapsto> VInt 3]"
  define jd where "jd = [py ''name'' \<mapsto> VStr (py ''javadoc''), py ''tile'' \<mapsto> VInt 2]"
  define d where "d = py ''save''"
  have L: "\<forall>p. \<exists>m. L p = Inr m" by (simp add: L_def model_everywhere_def)
  have nt: "py ''name'' \<noteq> py ''tile''" by (simp add: py_def)
  have nkw: "kw (py ''name'') = Some (VStr (py ''keywords''))" by (simp add: kw_def nt)
  have nty: "ty (py ''name'') = Some (VStr (py ''types''))" by (simp add: ty_def nt)
  have ncx: "cx (py ''name'') = Some (VStr (py ''context''))" by (simp add: cx_def nt)
  have njd: "jd (py ''name'') = Some (VStr (py ''javadoc''))" by (simp add: jd_def nt)
  have sub: "set CE \<subseteq> dom kw" "set CE \<subseteq> dom ty" "set CE \<subseteq> dom cx"
    by (simp_all add: CE_def kw_def ty_def cx_def)
  have ne: "VStr (py ''keywords'') \<noteq> VStr (py ''types'')"
    "VStr (py ''keywords'') \<noteq> VStr (py ''context'')"
    "VStr (py ''types'') \<noteq> VStr (py ''context'')"
    "VStr (py ''javadoc'') \<noteq> VStr (py ''keywords'')"
    "VStr (py ''javadoc'') \<noteq> VStr (py ''types'')"
    "VStr (py ''javadoc'') \<noteq> VStr (py ''context'')"
    by (simp_all add: py_def)
  have good: "\<forall>cfg\<in>set [kw, ty, cx]. set CE \<subseteq> dom cfg \<and>
           (cfg (py ''name'') = Some (VStr (py ''keywords''))
            \<or> cfg (py ''name'') = Some (VStr (py ''types''))
            \<or> cfg (py ''name'') = Some (VStr (py ''context'')))"
    using nkw nty ncx sub by simp
  have good1: "\<forall>cfg\<in>set [kw]. set CE \<subseteq> dom cfg \<and>
           (cfg (py ''name'') = Some (VStr (py ''keywords''))
            \<or> cfg (py ''name'') = Some (VStr (py ''types''))
            \<or> cfg (py ''name'') = Some (VStr (py ''context'')))"
    using nkw sub by simp
  have "\<exists>es. read_config CE L [kw, ty, cx] d = Inr es"
    by (rule read_config_dispatch [THEN conjunct2, THEN conjunct2, THEN mp, THEN mp, OF L good])
  then obtain es where es: "read_config CE L [kw, ty, cx] d = Inr es" ..
  have "\<exists>es. read_config CE L [kw] d = Inr es"
    by (rule read_config_dispatch [THEN conjunct2, THEN conjunct2, THEN mp, THEN mp, OF L good1])
  then obtain made where made: "read_config CE L [kw] d = Inr made" ..
  have all: "list_all2 (\<lambda>cfg e.
           (cfg (py ''name'') = Some (VStr (py ''keywords'')) \<and> kind e = Keywords
            \<or> cfg (py ''name'') = Some (VStr (py ''types'')) \<and> kind e = Types
            \<or> cfg (py ''name'') = Some (VStr (py ''context'')) \<and> kind e = Context)
           \<and> init_config CE L (new (kind e)) cfg d = Inr e) [kw, ty, cx] es"
    by (rule read_config_dispatch [THEN conjunct1, THEN mp, OF es])
  then obtain e1 e2 e3 where e: "es = [e1, e2, e3]"
    and k1: "kw (py ''name'') = Some (VStr (py ''keywords'')) \<and> kind e1 = Keywords
            \<or> kw (py ''name'') = Some (VStr (py ''types'')) \<and> kind e1 = Types
            \<or> kw (py ''name'') = Some (VStr (py ''context'')) \<and> kind e1 = Context"
    and k2: "ty (py ''name'') = Some (VStr (py ''keywords'')) \<and> kind e2 = Keywords
            \<or> ty (py ''name'') = Some (VStr (py ''types'')) \<and> kind e2 = Types
            \<or> ty (py ''name'') = Some (VStr (py ''context'')) \<and> kind e2 = Context"
    and k3: "cx (py ''name'') = Some (VStr (py ''keywords'')) \<and> kind e3 = Keywords
            \<or> cx (py ''name'') = Some (VStr (py ''types'')) \<and> kind e3 = Types
            \<or> cx (py ''name'') = Some (VStr (py ''context'')) \<and> kind e3 = Context"
    unfolding list_all2_Cons1 by auto
  have "kind e1 = Keywords" using k1 ne unfolding nkw by simp
  moreover have "kind e2 = Types" using k2 ne unfolding nty by simp
  moreover have "kind e3 = Context" using k3 ne unfolding ncx by simp
  ultimately have kinds: "map kind es = [Keywords, Types, Context]" using e by simp
  have "read_config CE L ([kw] @ jd # []) d = Inl (TypeError (VStr (py ''javadoc'')))"
    by (rule read_config_dispatch [where bad = jd and post = "[]", THEN conjunct2, THEN conjunct1,
          THEN mp, THEN mp, THEN mp, THEN mp, THEN mp, OF made njd ne(4) ne(5) ne(6)])
  then have bad: "read_config CE L [kw, jd] d = Inl (TypeError (VStr (py ''javadoc'')))" by simp
  have "(\<exists>es. read_config CE L [kw, ty, cx] d = Inr es \<and> map kind es = [Keywords, Types, Context])
        \<and> read_config CE L [kw, jd] d = Inl (TypeError (VStr (py ''javadoc'')))"
    using es kinds bad by (intro conjI exI [of _ es])
  then show ?thesis unfolding CE_def L_def kw_def ty_def cx_def jd_def d_def .
qed

section \<open>Tiling in encode\<close>

lemma int_attr_VInt: "attrs self a = Some (VInt n) \<Longrightarrow> int_attr self a = Inr n"
  by (simp add: int_attr_def getattr_def)

lemma get_dense_kernel:
  "scope @ py ''/dense/kernel'' \<notin> set g \<Longrightarrow> 0 \<le> n \<Longrightarrow> 0 \<le> u \<Longrightarrow>
     tf_get_variable g (scope @ py ''/dense'') (py ''kernel'') [n, u]
       = Inr (Variable (scope @ py ''/dense/kernel'') [n, u], (scope @ py ''/dense/kernel'') # g)"
  by (simp add: tf_get_variable_def Let_def py_def)

lemma get_dense_bias:
  "scope @ py ''/dense/bias'' \<notin> set g \<Longrightarrow> 0 \<le> u \<Longrightarrow>
     tf_get_variable g (scope @ py ''/dense'') (py ''bias'') [u]
       = Inr (Variable (scope @ py ''/dense/bias'') [u], (scope @ py ''/dense/bias'') # g)"
  by (simp add: tf_get_variable_def Let_def py_def)

lemma get_w:
  "scope @ py ''/w'' \<notin> set g \<Longrightarrow> 0 \<le> u \<Longrightarrow> 0 \<le> m \<Longrightarrow>
     tf_get_variable g scope (py ''w'') [u, m]
       = Inr (Variable (scope @ py ''/w'') [u, m], (scope @ py ''/w'') # g)"
  by (simp add: tf_get_variable_def Let_def py_def)

lemma get_b:
  "scope @ py ''/b'' \<notin> set g \<Longrightarrow> 0 \<le> m \<Longrightarrow>
     tf_get_variable g scope (py ''b'') [m]
       = Inr (Variable (scope @ py ''/b'') [m], (scope @ py ''/b'') # g)"
  by (simp add: tf_get_variable_def Let_def py_def)

lemma scoped_names_differ:
  "scope @ py ''/dense/bias'' \<noteq> scope @ py ''/dense/kernel''"
  "scope @ py ''/w'' \<noteq> scope @ py ''/dense/kernel''"
  "scope @ py ''/w'' \<noteq> scope @ py ''/dense/bias''"
  "scope @ py ''/b'' \<noteq> scope @ py ''/dense/kernel''"
  "scope @ py ''/b'' \<noteq> scope @ py ''/dense/bias''"
  "scope @ py ''/b'' \<noteq> scope @ py ''/w''"
  by (simp_all add: py_def)

lemma encode_in_scope_ok:
  assumes u: "attrs self (py ''units'') = Some (VInt u)" "0 < u"
    and t: "attrs self (py ''tile'') = Some (VInt t)"
    and ls: "0 < latent_size config"
    and sh: "shape inputs = [b, n]" "0 < n"
    and fresh: "scope @ py ''/dense/kernel'' \<notin> set g" "scope @ py ''/dense/bias'' \<notin> set g"
      "scope @ py ''/w'' \<notin> set g" "scope @ py ''/b'' \<notin> set g"
  shows "encode_in_scope scope self inputs config g
           = Inr (replicate (nat t)
                    (XwPlusB (Dense inputs (Variable (scope @ py ''/dense/kernel'') [n, u])
                                (Variable (scope @ py ''/dense/bias'') [u]) [b, u])
                       (Variable (scope @ py ''/w'') [u, latent_size config])
                       (Variable (scope @ py ''/b'') [latent_size config])
                       [b, latent_size config]),
                  [scope @ py ''/b'', scope @ py ''/w'', scope @ py ''/dense/bias'',
                   scope @ py ''/dense/kernel''] @ g)"
proof -
  let ?k = "Variable (scope @ py ''/dense/kernel'') [n, u]"
  let ?bias = "Variable (scope @ py ''/dense/bias'') [u]"
  let ?enc = "Dense inputs ?k ?bias [b, u]"
  let ?w = "Variable (scope @ py ''/w'') [u, latent_size config]"
  let ?b = "Variable (scope @ py ''/b'') [latent_size config]"
  let ?g1 = "(scope @ py ''/dense/kernel'') # g"
  let ?g2 = "(scope @ py ''/dense/bias'') # ?g1"
  let ?g3 = "(scope @ py ''/w'') # ?g2"
  let ?g4 = "(scope @ py ''/b'') # ?g3"
  let ?lat = "XwPlusB ?enc ?w ?b [b, latent_size config]"
  have k: "tf_get_variable g (scope @ py ''/dense'') (py ''kernel'') [n, u] = Inr (?k, ?g1)"
    using fresh(1) u(2) sh(2) by (intro get_dense_kernel) simp_all
  have bi: "tf_get_variable ?g1 (scope @ py ''/dense'') (py ''bias'') [u] = Inr (?bias, ?g2)"
    using fresh(2) u(2) scoped_names_differ(1) [of scope] by (intro get_dense_bias) simp_all
  have d: "tf_layers_dense g scope inputs u = Inr (?enc, ?g2)"
    unfolding tf_layers_dense_def using sh(1) by (simp add: k bi)
  have w: "tf_get_variable ?g2 scope (py ''w'') [u, latent_size config] = Inr (?w, ?g3)"
    using fresh(3) u(2) ls scoped_names_differ(2,3) [of scope] by (intro get_w) simp_all
  have b: "tf_get_variable ?g3 scope (py ''b'') [latent_size config] = Inr (?b, ?g4)"
    using fresh(4) ls scoped_names_differ(4,5,6) [of scope] by (intro get_b) simp_all
  have x: "tf_nn_xw_plus_b ?enc ?w ?b = Inr ?lat"
    by (simp add: tf_nn_xw_plus_b_def)
  have "encode_in_scope scope self inputs config g = Inr (replicate (nat t) ?lat, ?g4)"
    unfolding encode_in_scope_def
    by (simp only: int_attr_VInt [OF u(1)] int_attr_VInt [OF t] d w b x sum.case prod.case)
  then show ?thesis by simp
qed


text \<open>
  Claim C4, amended. Let the instance have the integer attributes \<^verbatim>\<open>units\<close>, positive,
  and \<^verbatim>\<open>tile\<close>, not negative; let \<^verbatim>\<open>latent_size\<close> be positive, and let the input be a batch
  of topic vectors, a tensor of shape \<open>[b, n]\<close> with \<open>n\<close> positive. In a graph that has
  none of the variables \<^verbatim>\<open>dense/kernel\<close>, \<^verbatim>\<open>dense/bias\<close>, \<^verbatim>\<open>w\<close> and \<^verbatim>\<open>b\<close> of the kind's scope,
  \<^verbatim>\<open>encode\<close> of \<^verbatim>\<open>Keywords\<close>, \<^verbatim>\<open>Types\<close> and \<^verbatim>\<open>Context\<close> creates these four variables and
  returns the latent encoding \<^verbatim>\<open>xw_plus_b(dense(inputs), w, b)\<close>, of shape
  \<open>[b, latent_size]\<close>, replicated \<^verbatim>\<open>tile\<close> times: a list of exactly \<^verbatim>\<open>tile\<close> equal tensors.
\<close>

theorem encode_tiling:
  assumes u: "attrs self (py ''units'') = Some (VInt u)" "0 < u"
    and t: "attrs self (py ''tile'') = Some (VInt t)" "0 \<le> t"
    and ls: "0 < latent_size config"
    and sh: "shape inputs = [b, n]" "0 < n"
  shows "\<forall>(enc, scope) \<in> set [(Keywords_encode, py ''keywords''), (Types_encode, py ''types''),
                               (Context_encode, py ''context'')].
           (\<forall>name \<in> set [py ''/dense/kernel'', py ''/dense/bias'', py ''/w'', py ''/b''].
               scope @ name \<notin> set g) \<longrightarrow>
           (let encoding = Dense inputs (Variable (scope @ py ''/dense/kernel'') [n, u])
                             (Variable (scope @ py ''/dense/bias'') [u]) [b, u];
                w = Variable (scope @ py ''/w'') [u, latent_size config];
                b' = Variable (scope @ py ''/b'') [latent_size config];
                latent_encoding = XwPlusB encoding w b' [b, latent_size config]
            in enc self inputs config g
                 = Inr (replicate (nat t) latent_encoding,
                        [scope @ py ''/b'', scope @ py ''/w'', scope @ py ''/dense/bias'',
                         scope @ py ''/dense/kernel''] @ g)
               \<and> int (length (replicate (nat t) latent_encoding)) = t
               \<and> shape latent_encoding = [b, latent_size config])"
proof -
  have one: "(\<forall>name \<in> set [py ''/dense/kernel'', py ''/dense/bias'', py ''/w'', py ''/b''].
               scope @ name \<notin> set g) \<longrightarrow>
           (let encoding = Dense inputs (Variable (scope @ py ''/dense/kernel'') [n, u])
                             (Variable (scope @ py ''/dense/bias'') [u]) [b, u];
                w = Variable (scope @ py ''/w'') [u, latent_size config];
                b' = Variable (scope @ py ''/b'') [latent_size config];
                latent_encoding = XwPlusB encoding w b' [b, latent_size config]
            in encode_in_scope scope self inputs config g
                 = Inr (replicate (nat t) latent_encoding,
                        [scope @ py ''/b'', scope @ py ''/w'', scope @ py ''/dense/bias'',
                         scope @ py ''/dense/kernel''] @ g)
               \<and> int (length (replicate (nat t) latent_encoding)) = t
               \<and> shape latent_encoding = [b, latent_size config])" for scope
  proof
    assume "\<forall>name \<in> set [py ''/dense/kernel'', py ''/dense/bias'', py ''/w'', py ''/b''].
               scope @ name \<notin> set g"
    then have fresh: "scope @ py ''/dense/kernel'' \<notin> set g" "scope @ py ''/dense/bias'' \<notin> set g"
      "scope @ py ''/w'' \<notin> set g" "scope @ py ''/b'' \<notin> set g"
      by simp_all
    show "let encoding = Dense inputs (Variable (scope @ py ''/dense/kernel'') [n, u])
                             (Variable (scope @ py ''/dense/bias'') [u]) [b, u];
                w = Variable (scope @ py ''/w'') [u, latent_size config];
                b' = Variable (scope @ py ''/b'') [latent_size config];
                latent_encoding = XwPlusB encoding w b' [b, latent_size config]
            in encode_in_scope scope self inputs config g
                 = Inr (replicate (nat t) latent_encoding,
                        [scope @ py ''/b'', scope @ py ''/w'', scope @ py ''/dense/bias'',
                         scope @ py ''/dense/kernel''] @ g)
               \<and> int (length (replicate (nat t) latent_encoding)) = t
               \<and> shape latent_encoding = [b, latent_size config]"
      unfolding Let_def
      using encode_in_scope_ok [OF u t(1) ls sh fresh] t(2) by simp
  qed
  show ?thesis
    using one [of "py ''keywords''"] one [of "py ''types''"] one [of "py ''context''"]
    by (simp add: Keywords_encode_def Types_encode_def Context_encode_def)
qed


theorem encode_tiling_witness:
  "Keywords_encode \<lparr>kind = Keywords, attrs = [py ''units'' \<mapsto> VInt 8, py ''tile'' \<mapsto> VInt 3]\<rparr>
     (Placeholder [10, 5]) \<lparr>latent_size = 4, batch_size = 10\<rparr> []
   = Inr (replicate 3
            (XwPlusB (Dense (Placeholder [10, 5]) (Variable (py ''keywords/dense/kernel'') [5, 8])
                        (Variable (py ''keywords/dense/bias'') [8]) [10, 8])
               (Variable (py ''keywords/w'') [8, 4]) (Variable (py ''keywords/b'') [4]) [10, 4]),
          [py ''keywords/b'', py ''keywords/w'', py ''keywords/dense/bias'',
           py ''keywords/dense/kernel''])"
  using encode_tiling
    [of "\<lparr>kind = Keywords, attrs = [py ''units'' \<mapsto> VInt 8, py ''tile'' \<mapsto> VInt 3]\<rparr>" 8 3
        "\<lparr>latent_size = 4, batch_size = 10\<rparr>" "Placeholder [10, 5]" 10 5 "[]"]
  by (simp add: py_def Let_def)

text \<open>
  Claim C4, as stated: for every valid batch, \<^verbatim>\<open>encode\<close> returns exactly \<^verbatim>\<open>tile\<close> latent
  encodings. With \<^verbatim>\<open>tile\<close> equal to -2 it returns the empty list, and in a graph that
  has the variable \<^verbatim>\<open>keywords/w\<close> already it raises \<^verbatim>\<open>ValueError\<close>.
\<close>

theorem encode_tiling_counterexample:
  "Keywords_encode \<lparr>kind = Keywords, attrs = [py ''units'' \<mapsto> VInt 8, py ''tile'' \<mapsto> VInt (- 2)]\<rparr>
     (Placeholder [10, 5]) \<lparr>latent_size = 4, batch_size = 10\<rparr> []
   = Inr ([], [py ''keywords/b'', py ''keywords/w'', py ''keywords/dense/bias'',
               py ''keywords/dense/kernel''])
   \<and> Keywords_encode \<lparr>kind = Keywords, attrs = [py ''units'' \<mapsto> VInt 8, py ''tile'' \<mapsto> VInt 3]\<rparr>
       (Placeholder [10, 5]) \<lparr>latent_size = 4, batch_size = 10\<rparr> [py ''keywords/w'']
     = Inl ValueError"
  by (simp add: Keywords_encode_def encode_in_scope_def int_attr_def getattr_def
        tf_layers_dense_def tf_get_variable_def tf_nn_xw_plus_b_def py_def Let_def)

end
